theory Spec2Isabelle
  imports Complex_Main
begin

section \<open>The PDB extraction tool (\<^verbatim>\<open>pdb_extract.py\<close>)\<close>

text \<open>
  The tool fetches delimited text for a list of PDB identifiers, builds a pandas
  DataFrame from it, optionally filters it by resolution, writes it to a CSV file through
  a temporary file, and optionally writes a condensed table with one row per PDB
  identifier. This theory embeds the functions of \<^verbatim>\<open>pdb_extract.py\<close> and proves
  the properties its specification states about them.

  A DataFrame is a list of column labels and a list of rows of cells. The row labels
  (the index) are left out: no result of the program depends on them.
\<close>

subsection \<open>Values\<close>

text \<open>
  A Python float is a finite number (abstracted to the real it denotes), an infinity or
  NaN. Comparisons with NaN are false.
\<close>

datatype pyfloat = Fin real | PInf | NInf | NaN

fun float_le :: "pyfloat \<Rightarrow> pyfloat \<Rightarrow> bool" where
  "float_le NaN y = False"
| "float_le x NaN = False"
| "float_le NInf y = True"
| "float_le x PInf = True"
| "float_le (Fin a) (Fin b) = (a \<le> b)"
| "float_le x y = False"

text \<open>Truthiness of a float in \<^verbatim>\<open>if x:\<close>: only zero is false (NaN is true).\<close>

fun float_truthy :: "pyfloat \<Rightarrow> bool" where
  "float_truthy (Fin a) = (a \<noteq> 0)"
| "float_truthy x = True"

text \<open>
  A cell of a DataFrame: a text (what \<^verbatim>\<open>csv.reader\<close> yields), a float (what
  \<^verbatim>\<open>pd.to_numeric\<close> yields), or \<^verbatim>\<open>None\<close> (what \<^verbatim>\<open>pd.DataFrame\<close> puts
  where a row is shorter than the widest row). Column labels are cells too, since
  \<^verbatim>\<open>df.columns = df.iloc[0]\<close> makes a row the labels.
\<close>

datatype cell = Str string | Flt pyfloat | PyNone

record frame =
  columns :: "cell list"
  rows :: "cell list list"

datatype error =
  SystemExit nat
| EmptyDataFrame
| IndexError
| KeyError
| ValueError
| TypeError
| AttributeError

text \<open>The file system as far as the program touches it: the content of each path.\<close>

type_synonym fs = "string \<Rightarrow> string option"

text \<open>
  What the program takes from outside the repository: the remote service, and the
  functions of the Python library and of pandas that work on text, floating point and
  files.
  \<^item> \<open>search_ids\<close>: the identifiers the remote search returns for a technique
    (\<^verbatim>\<open>get_pdbs_from_method\<close>), \<open>None\<close> when the service cannot be reached;
  \<^item> \<open>fetch\<close>: the body of the custom report for one identifier and a field list,
    \<open>None\<close> when the service cannot be reached;
  \<^item> \<open>splitlines\<close>, \<open>csv_reader\<close>: \<^verbatim>\<open>str.splitlines\<close> and \<^verbatim>\<open>csv.reader\<close>;
  \<^item> \<open>str_to_float\<close>: the number a non-empty text denotes for \<^verbatim>\<open>pd.to_numeric\<close>,
    \<open>None\<close> when it denotes none;
  \<^item> \<open>float_to_str\<close>: \<^verbatim>\<open>str\<close> of a finite float;
  \<^item> \<open>to_datetime_ok\<close>: whether \<^verbatim>\<open>pd.to_datetime\<close> accepts a column;
  \<^item> \<open>to_csv\<close>: what is found at the target path after \<^verbatim>\<open>DataFrame.to_csv\<close> wrote a
    frame there, \<open>None\<close> when no file is there.
\<close>

record env =
  search_ids :: "string \<Rightarrow> string list option"
  fetch :: "string \<Rightarrow> string \<Rightarrow> string option"
  splitlines :: "string \<Rightarrow> string list"
  csv_reader :: "string list \<Rightarrow> string list list"
  str_to_float :: "string \<Rightarrow> pyfloat option"
  float_to_str :: "real \<Rightarrow> string"
  to_datetime_ok :: "cell list \<Rightarrow> bool"
  to_csv :: "frame \<Rightarrow> string option"

subsection \<open>Constants of the module\<close>

definition DEFAULT_OUTPUT :: string where "DEFAULT_OUTPUT = ''PDB_extract-out.csv''"

definition PDB_ID_KEY :: string where "PDB_ID_KEY = ''structureId''"
definition STRUCT_TITLE_KEY :: string where "STRUCT_TITLE_KEY = ''structureTitle''"
definition RES_KEY :: string where "RES_KEY = ''resolution''"
definition LIG_NAME_KEY :: string where "LIG_NAME_KEY = ''ligandName''"
definition CLASS_KEY :: string where "CLASS_KEY = ''classification''"
definition MACRO_TYPE_KEY :: string where "MACRO_TYPE_KEY = ''macromoleculeType''"
definition EMDB_KEY :: string where "EMDB_KEY = ''emdbId''"
definition PUBMED_KEY :: string where "PUBMED_KEY = ''pubmedId''"
definition REL_DATE_KEY :: string where "REL_DATE_KEY = ''releaseDate''"
definition EXP_TECHNIQUE_KEY :: string where "EXP_TECHNIQUE_KEY = ''experimentalTechnique''"
definition UNIPROT_ID_KEY :: string where "UNIPROT_ID_KEY = ''uniprotAcc''"
definition SOURCE_KEY :: string where "SOURCE_KEY = ''source''"
definition LIG_SMILES_KEY :: string where "LIG_SMILES_KEY = ''ligandSmiles''"

text \<open>The ordered dictionary from REST field keys to the CSV headers.\<close>

definition FIELDS_DICT :: "(string \<times> string) list" where
  "FIELDS_DICT =
     [(PDB_ID_KEY, ''PDB ID''), (STRUCT_TITLE_KEY, ''Structure Title''),
      (RES_KEY, ''Resolution''), (LIG_NAME_KEY, ''Ligand Name(s)''),
      (CLASS_KEY, ''Classification''), (MACRO_TYPE_KEY, ''Macromol. Type''),
      (EMDB_KEY, ''EMDB ID''), (PUBMED_KEY, ''Pubmed ID''),
      (REL_DATE_KEY, ''Rel. Date''), (EXP_TECHNIQUE_KEY, ''Exp. Technique''),
      (UNIPROT_ID_KEY, ''Uniprot ID''), (SOURCE_KEY, ''Source''),
      (LIG_SMILES_KEY, ''Ligand SMILES'')]"

text \<open>\<^verbatim>\<open>FIELDS_DICT[key]\<close> for the keys the program looks up (all are in the dictionary).\<close>

definition field :: "string \<Rightarrow> string" where
  "field k = (case map_of FIELDS_DICT k of Some v \<Rightarrow> v | None \<Rightarrow> [])"

text \<open>\<^verbatim>\<open>sep.join(xs)\<close>.\<close>

fun py_join :: "string \<Rightarrow> string list \<Rightarrow> string" where
  "py_join sep [] = []"
| "py_join sep [x] = x"
| "py_join sep (x # y # ys) = x @ sep @ py_join sep (y # ys)"

definition FIELDS_LIST :: string where
  "FIELDS_LIST = py_join '','' (map fst FIELDS_DICT)"

definition EXP_METHODS :: "string list" where
  "EXP_METHODS =
     [''X-RAY'', ''SOLUTION NMR'', ''SOLID-STAE NMR'', ''ELECTRON MICROSCOPY'',
      ''ELECTRON CRYSTALLOGRAPHY'', ''FIBER DIFFRACTION'', ''NEUTRON DIFFRACTION'',
      ''SOLUTION SCATTERING'', ''OTHER'', ''HYBRID'']"

definition DEFAULT_METHOD :: string where "DEFAULT_METHOD = EXP_METHODS ! 3"

subsection \<open>Python lists and paths\<close>

text \<open>
  A slice bound \<open>i\<close> on a list of length \<open>n\<close>: negative bounds count from the end, and
  every bound is clamped to \<open>0..n\<close>.
\<close>

definition py_bound :: "nat \<Rightarrow> int \<Rightarrow> nat" where
  "py_bound n i = (if i < 0 then nat (max 0 (int n + i)) else min n (nat i))"

text \<open>\<^verbatim>\<open>xs[lo:hi]\<close>; a bound left out is \<open>None\<close>.\<close>

definition py_slice :: "'a list \<Rightarrow> int option \<Rightarrow> int option \<Rightarrow> 'a list" where
  "py_slice xs lo hi =
     (let n = length xs;
          a = (case lo of None \<Rightarrow> 0 | Some i \<Rightarrow> py_bound n i);
          b = (case hi of None \<Rightarrow> n | Some j \<Rightarrow> py_bound n j)
      in drop a (take b xs))"

text \<open>\<^verbatim>\<open>xs[lo:hi] = ys\<close>: the slice is replaced by \<open>ys\<close>.\<close>

definition py_slice_assign :: "'a list \<Rightarrow> int \<Rightarrow> int \<Rightarrow> 'a list \<Rightarrow> 'a list" where
  "py_slice_assign xs lo hi ys =
     (let n = length xs; a = py_bound n lo; b = max a (py_bound n hi)
      in take a xs @ ys @ drop b xs)"

text \<open>\<^verbatim>\<open>p.rfind(c)\<close>: the last position of a character, \<open>-1\<close> when there is none.\<close>

definition rfind :: "string \<Rightarrow> char \<Rightarrow> int" where
  "rfind p c =
     (case filter (\<lambda>i. p ! i = c) (rev [0..<length p]) of
        [] \<Rightarrow> - 1
      | i # _ \<Rightarrow> int i)"

text \<open>
  \<^verbatim>\<open>os.path.splitext\<close> (POSIX): the extension starts at the last dot of the last path
  component, unless only dots stand before it in that component.
\<close>

definition splitext :: "string \<Rightarrow> string \<times> string" where
  "splitext p =
     (let sepIndex = rfind p (CHR ''/'');
          dotIndex = rfind p (CHR ''.'')
      in if dotIndex > sepIndex
            \<and> list_ex (\<lambda>ch. ch \<noteq> CHR ''.'') (py_slice p (Some (sepIndex + 1)) (Some dotIndex))
         then (take (nat dotIndex) p, drop (nat dotIndex) p)
         else (p, []))"

subsection \<open>The pandas operations the program uses\<close>

text \<open>
  The operations are modelled as they work on columns of Python objects (texts and
  \<^verbatim>\<open>None\<close>), which is what \<^verbatim>\<open>pd.DataFrame\<close> makes of the rows of
  \<^verbatim>\<open>csv.reader\<close> in the pandas releases the program was written for.
\<close>

text \<open>
  \<^verbatim>\<open>Series.unique()\<close> and the row order of \<^verbatim>\<open>drop_duplicates()\<close>: the first occurrence
  of every value is kept, in order of appearance.
\<close>

fun unique_from :: "'a list \<Rightarrow> 'a list \<Rightarrow> 'a list" where
  "unique_from seen [] = []"
| "unique_from seen (x # xs) =
     (if x \<in> set seen then unique_from seen xs else x # unique_from (x # seen) xs)"

definition unique :: "'a list \<Rightarrow> 'a list" where
  "unique xs = unique_from [] xs"

definition drop_duplicates :: "frame \<Rightarrow> frame" where
  "drop_duplicates df = df\<lparr>rows := unique (rows df)\<rparr>"

text \<open>
  \<^verbatim>\<open>pd.DataFrame(data_rows)\<close> for a list of lists: the frame is as wide as the longest
  row, shorter rows are filled with \<^verbatim>\<open>None\<close>, and the columns are labelled
  \<open>0, 1, ...\<close>.
\<close>

definition width :: "'a list list \<Rightarrow> nat" where
  "width data_rows = fold max (map length data_rows) 0"

definition pad :: "nat \<Rightarrow> string list \<Rightarrow> cell list" where
  "pad w r = map Str r @ replicate (w - length r) PyNone"

definition DataFrame :: "string list list \<Rightarrow> frame" where
  "DataFrame data_rows =
     \<lparr>columns = map (\<lambda>i. Flt (Fin (real i))) [0..<width data_rows],
      rows = map (pad (width data_rows)) data_rows\<rparr>"

text \<open>\<^verbatim>\<open>df.empty\<close>: an axis has length 0.\<close>

definition empty :: "frame \<Rightarrow> bool" where
  "empty df = (rows df = [] \<or> columns df = [])"

text \<open>\<^verbatim>\<open>df.rename(columns=d)\<close>: a label that is a key of \<open>d\<close> is replaced, others stay.\<close>

definition rename_label :: "(string \<times> string) list \<Rightarrow> cell \<Rightarrow> cell" where
  "rename_label d c =
     (case c of
        Str k \<Rightarrow> (case map_of d k of Some v \<Rightarrow> Str v | None \<Rightarrow> c)
      | _ \<Rightarrow> c)"

definition rename :: "frame \<Rightarrow> (string \<times> string) list \<Rightarrow> frame" where
  "rename df d = df\<lparr>columns := map (rename_label d) (columns df)\<rparr>"

text \<open>
  \<^verbatim>\<open>df[label]\<close> as a single column: the position of the label. A label that is absent
  raises \<^verbatim>\<open>KeyError\<close>; a label that several columns carry selects a frame, not a
  column, and the operation applied to it raises (\<open>dup\<close> is that exception).
\<close>

definition col_positions :: "cell list \<Rightarrow> cell \<Rightarrow> nat list" where
  "col_positions cols c = filter (\<lambda>i. cols ! i = c) [0..<length cols]"

definition get_col :: "error \<Rightarrow> cell list \<Rightarrow> cell \<Rightarrow> error + nat" where
  "get_col dup cols c =
     (case col_positions cols c of
        [] \<Rightarrow> Inl KeyError
      | [i] \<Rightarrow> Inr i
      | _ \<Rightarrow> Inl dup)"

definition column :: "nat \<Rightarrow> cell list list \<Rightarrow> cell list" where
  "column i rs = map (\<lambda>r. r ! i) rs"

text \<open>\<^verbatim>\<open>grp[col] = v\<close> for a scalar \<open>v\<close>: every row gets \<open>v\<close> in that column.\<close>

definition set_column :: "nat \<Rightarrow> cell \<Rightarrow> cell list list \<Rightarrow> cell list list" where
  "set_column i v rs = map (\<lambda>r. r[i := v]) rs"

text \<open>
  \<^verbatim>\<open>Series.astype(str)\<close> on a column of objects applies \<^verbatim>\<open>str\<close> to every cell, the
  missing ones included: \<^verbatim>\<open>str(None)\<close> is \<^verbatim>\<open>'None'\<close> and \<^verbatim>\<open>str(float('nan'))\<close> is
  \<^verbatim>\<open>'nan'\<close>.
\<close>

fun astype_str :: "env \<Rightarrow> cell \<Rightarrow> string" where
  "astype_str e (Str s) = s"
| "astype_str e (Flt (Fin a)) = float_to_str e a"
| "astype_str e (Flt PInf) = ''inf''"
| "astype_str e (Flt NInf) = ''-inf''"
| "astype_str e (Flt NaN) = ''nan''"
| "astype_str e PyNone = ''None''"

text \<open>Missing values: \<^verbatim>\<open>None\<close> and NaN.\<close>

definition isnull :: "cell \<Rightarrow> bool" where
  "isnull c = (c = PyNone \<or> c = Flt NaN)"

text \<open>
  The order of group keys: texts by code point, numbers before texts.
\<close>

fun str_le :: "string \<Rightarrow> string \<Rightarrow> bool" where
  "str_le [] t = True"
| "str_le (a # s) [] = False"
| "str_le (a # s) (b # t) =
     ((of_char a :: nat) < of_char b \<or> (a = b \<and> str_le s t))"

fun key_le :: "cell \<Rightarrow> cell \<Rightarrow> bool" where
  "key_le (Flt a) (Flt b) = float_le a b"
| "key_le (Flt a) (Str t) = True"
| "key_le (Str s) (Flt b) = False"
| "key_le (Str s) (Str t) = str_le s t"
| "key_le x PyNone = True"
| "key_le PyNone y = False"

fun insert_key :: "cell \<Rightarrow> cell list \<Rightarrow> cell list" where
  "insert_key k [] = [k]"
| "insert_key k (x # xs) = (if key_le k x then k # x # xs else x # insert_key k xs)"

definition sort_keys :: "cell list \<Rightarrow> cell list" where
  "sort_keys ks = foldr insert_key ks []"

text \<open>
  \<^verbatim>\<open>d_frame.groupby(label)\<close>, iterated: one group per distinct key that is not missing,
  in sorted key order; a group holds the rows with that key, in their order.
\<close>

definition groupby :: "frame \<Rightarrow> cell \<Rightarrow> error + (cell \<times> cell list list) list" where
  "groupby d_frame label =
     (case get_col ValueError (columns d_frame) label of
        Inl e \<Rightarrow> Inl e
      | Inr k \<Rightarrow>
          Inr (map (\<lambda>name. (name, filter (\<lambda>r. r ! k = name) (rows d_frame)))
                 (sort_keys (unique (filter (\<lambda>c. \<not> isnull c) (column k (rows d_frame)))))))"

text \<open>
  \<^verbatim>\<open>df.drop(label, axis=1)\<close>: every column with that label goes; \<^verbatim>\<open>KeyError\<close> when
  there is none.
\<close>

definition drop_cells :: "cell list \<Rightarrow> cell \<Rightarrow> 'a list \<Rightarrow> 'a list" where
  "drop_cells cols label r = map snd (filter (\<lambda>(c, x). c \<noteq> label) (zip cols r))"

definition drop_column :: "frame \<Rightarrow> cell \<Rightarrow> error + frame" where
  "drop_column df label =
     (if label \<in> set (columns df)
      then Inr \<lparr>columns = filter (\<lambda>c. c \<noteq> label) (columns df),
                rows = map (drop_cells (columns df) label) (rows df)\<rparr>
      else Inl KeyError)"

text \<open>
  The frame \<^verbatim>\<open>to_csv(columns=labels)\<close> writes, \<^verbatim>\<open>df.loc[:, labels]\<close>: for every label
  in turn, the columns that carry it.
\<close>

definition select_columns :: "frame \<Rightarrow> cell list \<Rightarrow> error + frame" where
  "select_columns df labels =
     (if set labels \<subseteq> set (columns df)
      then (let idx = concat (map (col_positions (columns df)) labels)
            in Inr \<lparr>columns = map (\<lambda>i. columns df ! i) idx,
                     rows = map (\<lambda>r. map (\<lambda>i. r ! i) idx) (rows df)\<rparr>)
      else Inl KeyError)"

text \<open>
  \<^verbatim>\<open>pd.to_numeric\<close> on one cell: a float stays, \<^verbatim>\<open>None\<close> and the empty text become
  NaN, any other text is parsed; \<open>None\<close> stands for the \<^verbatim>\<open>ValueError\<close> of a text that
  is no number.
\<close>

fun to_numeric_cell :: "env \<Rightarrow> cell \<Rightarrow> pyfloat option" where
  "to_numeric_cell e (Flt x) = Some x"
| "to_numeric_cell e PyNone = Some NaN"
| "to_numeric_cell e (Str s) = (if s = [] then Some NaN else str_to_float e s)"

fun to_numeric :: "env \<Rightarrow> cell list \<Rightarrow> error + pyfloat list" where
  "to_numeric e [] = Inr []"
| "to_numeric e (c # cs) =
     (case to_numeric_cell e c of
        None \<Rightarrow> Inl ValueError
      | Some x \<Rightarrow> (case to_numeric e cs of Inl err \<Rightarrow> Inl err | Inr xs \<Rightarrow> Inr (x # xs)))"

subsection \<open>The functions of the program\<close>

text \<open>
  The namespace of the command line; \<open>method_name\<close> is the option \<^verbatim>\<open>-method\<close>.
\<close>

record cmd_args =
  outfile :: string
  method_name :: string
  min_res :: "pyfloat option"
  condensed :: bool

text \<open>
  \<^verbatim>\<open>parse_args\<close>, from the namespace \<^verbatim>\<open>argparse\<close> built: the technique is one of the
  choices and the output file has the extension \<^verbatim>\<open>.csv\<close>, or the parser exits with
  status 2.
\<close>

definition parse_args :: "cmd_args \<Rightarrow> error + cmd_args" where
  "parse_args args =
     (if method_name args \<notin> set EXP_METHODS then Inl (SystemExit 2)
      else if \<not> snd (splitext (outfile args)) = ''.csv'' then Inl (SystemExit 2)
      else Inr args)"

text \<open>
  \<^verbatim>\<open>get_pdbs_from_method\<close>: the identifiers of the remote search;
  \<^verbatim>\<open>query_rcsb_db\<close> exits with status 1 on a \<^verbatim>\<open>URLError\<close>.
\<close>

definition get_pdbs_from_method :: "env \<Rightarrow> string \<Rightarrow> error + string list" where
  "get_pdbs_from_method e exp_method =
     (case search_ids e exp_method of
        None \<Rightarrow> Inl (SystemExit 1)
      | Some pdbs_list \<Rightarrow> Inr pdbs_list)"

text \<open>The loop of \<^verbatim>\<open>get_dataframe_from_pdbs\<close> that builds \<^verbatim>\<open>data_str\<close>.\<close>

fun fetch_all :: "env \<Rightarrow> string list \<Rightarrow> string \<Rightarrow> string \<Rightarrow> error + string" where
  "fetch_all e [] field_names data_str = Inr data_str"
| "fetch_all e (pdb_num # rest) field_names data_str =
     (case fetch e pdb_num field_names of
        None \<Rightarrow> Inl (SystemExit 1)
      | Some pdb_data \<Rightarrow> fetch_all e rest field_names (data_str @ pdb_data))"

text \<open>
  The table built from the parsed rows: the emptiness check, \<^verbatim>\<open>drop_duplicates\<close>,
  the first row as the column labels, the slice \<^verbatim>\<open>df[1:-1]\<close> and the renaming.
\<close>

definition build_table :: "string list list \<Rightarrow> error + frame" where
  "build_table data_rows =
     (let df = DataFrame data_rows
      in if empty df then Inl EmptyDataFrame
         else (let df1 = drop_duplicates df
               in case rows df1 of
                    [] \<Rightarrow> Inl IndexError
                  | r0 # _ \<Rightarrow>
                      (let df2 = df1\<lparr>columns := r0\<rparr>;
                           df3 = df2\<lparr>rows := py_slice (rows df2) (Some 1) (Some (- 1))\<rparr>
                       in Inr (rename df3 FIELDS_DICT))))"

definition get_dataframe_from_pdbs :: "env \<Rightarrow> string list \<Rightarrow> string \<Rightarrow> error + frame" where
  "get_dataframe_from_pdbs e pdb_id_list field_names =
     (case fetch_all e pdb_id_list field_names [] of
        Inl err \<Rightarrow> Inl err
      | Inr data_str \<Rightarrow> build_table (csv_reader e (splitlines e data_str)))"

text \<open>
  The inner loop of \<^verbatim>\<open>concat_column_data\<close> over the column names, on one group. The
  column is replaced by its texts and then, from the distinct texts, by the joined text.
  The group is one object changed in place; the loop appends that object to
  \<^verbatim>\<open>results\<close> once per column name.
\<close>

fun concat_group :: "env \<Rightarrow> cell list \<Rightarrow> string list \<Rightarrow> cell list list \<Rightarrow> error + cell list list"
  where
  "concat_group e cols [] grp = Inr grp"
| "concat_group e cols (col_nm # rest) grp =
     (case get_col AttributeError cols (Str col_nm) of
        Inl err \<Rightarrow> Inl err
      | Inr i \<Rightarrow>
          (let strs = map (astype_str e) (column i grp);
               unique_entries = unique strs;
               join_char = (if col_nm = field LIG_NAME_KEY then '' | '' else '' '');
               joined = py_join join_char (filter (\<lambda>f. f \<noteq> []) unique_entries)
           in concat_group e cols rest (set_column i (Str joined) grp)))"

text \<open>The outer loop over the groups, collecting \<^verbatim>\<open>results\<close>.\<close>

fun concat_groups ::
  "env \<Rightarrow> cell list \<Rightarrow> string list \<Rightarrow> (cell \<times> cell list list) list \<Rightarrow> cell list list list
     \<Rightarrow> error + cell list list list"
  where
  "concat_groups e cols col_names [] results = Inr results"
| "concat_groups e cols col_names ((name, grp) # rest) results =
     (case concat_group e cols col_names grp of
        Inl err \<Rightarrow> Inl err
      | Inr grp' \<Rightarrow>
          concat_groups e cols col_names rest (results @ replicate (length col_names) grp'))"

text \<open>\<^verbatim>\<open>pd.concat\<close> raises \<^verbatim>\<open>ValueError\<close> when there is nothing to concatenate.\<close>

definition concat_column_data :: "env \<Rightarrow> string list \<Rightarrow> frame \<Rightarrow> error + frame" where
  "concat_column_data e col_names d_frame =
     (case groupby d_frame (Str (field PDB_ID_KEY)) of
        Inl err \<Rightarrow> Inl err
      | Inr grouped \<Rightarrow>
          (case concat_groups e (columns d_frame) col_names grouped [] of
             Inl err \<Rightarrow> Inl err
           | Inr results \<Rightarrow>
               if results = [] then Inl ValueError
               else Inr \<lparr>columns = columns d_frame, rows = concat results\<rparr>))"

definition get_condensed_df :: "env \<Rightarrow> string list \<Rightarrow> frame \<Rightarrow> error + frame" where
  "get_condensed_df e col_names d_frame =
     (case concat_column_data e col_names d_frame of
        Inl err \<Rightarrow> Inl err
      | Inr concat_df \<Rightarrow>
          (case drop_column concat_df (Str ''chainId'') of
             Inl err \<Rightarrow> Inl err
           | Inr dropped \<Rightarrow> Inr (drop_duplicates dropped)))"

definition filter_by_res :: "env \<Rightarrow> frame \<Rightarrow> pyfloat \<Rightarrow> string \<Rightarrow> error + frame" where
  "filter_by_res e d_frame res_val res_col_header =
     (case get_col TypeError (columns d_frame) (Str res_col_header) of
        Inl err \<Rightarrow> Inl err
      | Inr i \<Rightarrow>
          (case to_numeric e (column i (rows d_frame)) of
             Inl err \<Rightarrow> Inl err
           | Inr nums \<Rightarrow>
               (let coerced = map (\<lambda>(r, x). r[i := Flt x]) (zip (rows d_frame) nums);
                    res_mask = map (\<lambda>x. float_le x res_val) nums
                in Inr (d_frame\<lparr>rows := map fst (filter snd (zip coerced res_mask))\<rparr>))))"

text \<open>
  The export order of the condensed columns:
  \<^verbatim>\<open>export_cols = cols[:-2]; qed_items = cols[-2:]; export_cols[5:5] = qed_items\<close>.
\<close>

definition export_order :: "'a list \<Rightarrow> 'a list" where
  "export_order cols =
     (let export_cols = py_slice cols None (Some (- 2));
          qed_items = py_slice cols (Some (- 2)) None
      in py_slice_assign export_cols 5 5 qed_items)"

text \<open>
  \<^verbatim>\<open>pd.to_datetime(df[label]).max()\<close>: only whether it raises matters, the date is
  logged.
\<close>

definition most_recent_date :: "env \<Rightarrow> frame \<Rightarrow> error + unit" where
  "most_recent_date e df =
     (case get_col ValueError (columns df) (Str (field REL_DATE_KEY)) of
        Inl err \<Rightarrow> Inl err
      | Inr i \<Rightarrow> if to_datetime_ok e (column i (rows df)) then Inr () else Inl ValueError)"

text \<open>
  The full table of a run: the table built from the fetched records, filtered when
  \<^verbatim>\<open>cmd_args.min_res\<close> is true.
\<close>

definition full_table :: "env \<Rightarrow> cmd_args \<Rightarrow> error + frame" where
  "full_table e args =
     (case get_pdbs_from_method e (method_name args) of
        Inl err \<Rightarrow> Inl err
      | Inr pdb_ids \<Rightarrow>
          (case get_dataframe_from_pdbs e pdb_ids FIELDS_LIST of
             Inl err \<Rightarrow> Inl err
           | Inr df \<Rightarrow>
               (case min_res args of
                  None \<Rightarrow> Inr df
                | Some t \<Rightarrow>
                    if float_truthy t then filter_by_res e df t (field RES_KEY) else Inr df)))"

definition tmp_name :: "string \<Rightarrow> string" where
  "tmp_name out = fst (splitext out) @ ''_tmp.csv''"

text \<open>The condensed output of \<^verbatim>\<open>main\<close>, written after the full output.\<close>

definition write_condensed :: "env \<Rightarrow> cmd_args \<Rightarrow> frame \<Rightarrow> fs \<Rightarrow> (error + unit) \<times> fs" where
  "write_condensed e args df files =
     (let cols_to_concat =
            [field PUBMED_KEY, field LIG_NAME_KEY, field SOURCE_KEY, field MACRO_TYPE_KEY,
             field UNIPROT_ID_KEY]
      in case get_condensed_df e cols_to_concat df of
           Inl err \<Rightarrow> (Inl err, files)
         | Inr condensed_df \<Rightarrow>
             (let out_name = ''CONDENSED_'' @ outfile args;
                  export_cols = export_order (columns condensed_df)
              in case select_columns condensed_df export_cols of
                   Inl err \<Rightarrow> (Inl err, files)
                 | Inr exported \<Rightarrow> (Inr (), files(out_name := to_csv e exported))))"

text \<open>
  The write step of \<^verbatim>\<open>main\<close>: the frame is written to the temporary file, the file is
  checked, and only then renamed to the output file.
\<close>

definition write_full :: "env \<Rightarrow> cmd_args \<Rightarrow> frame \<Rightarrow> fs \<Rightarrow> (error + unit) \<times> fs" where
  "write_full e args df files =
     (let tmp_outfile = tmp_name (outfile args);
          files1 = files(tmp_outfile := to_csv e df)
      in case files1 tmp_outfile of
           None \<Rightarrow> (Inl (SystemExit 1), files1)
         | Some written \<Rightarrow>
             if length written = 0 then (Inl (SystemExit 1), files1)
             else (case most_recent_date e df of
                     Inl err \<Rightarrow> (Inl err, files1)
                   | Inr u \<Rightarrow>
                       (let files2 = (files1(tmp_outfile := None))(outfile args := Some written)
                        in if condensed args then write_condensed e args df files2
                           else (Inr (), files2))))"

text \<open>
  \<^verbatim>\<open>main\<close>: how the run ends (\<open>Inr ()\<close> is a normal end, \<open>Inl\<close> an exit or an uncaught
  exception) and the files it leaves.
\<close>

definition main :: "env \<Rightarrow> cmd_args \<Rightarrow> fs \<Rightarrow> (error + unit) \<times> fs" where
  "main e argv files =
     (case parse_args argv of
        Inl err \<Rightarrow> (Inl err, files)
      | Inr args \<Rightarrow>
          (case full_table e args of
             Inl err \<Rightarrow> (Inl err, files)
           | Inr df \<Rightarrow> write_full e args df files))"

text \<open>The exit status of the process: 0 on a normal end, 1 after an uncaught exception.\<close>

fun exit_status :: "error + unit \<Rightarrow> nat" where
  "exit_status (Inr u) = 0"
| "exit_status (Inl (SystemExit n)) = n"
| "exit_status (Inl err) = 1"

subsection \<open>Notions the properties are stated with\<close>

text \<open>Every row has one cell per column, as in every DataFrame.\<close>

definition well_formed :: "frame \<Rightarrow> bool" where
  "well_formed df = list_all (\<lambda>r. length r = length (columns df)) (rows df)"

text \<open>The float \<^verbatim>\<open>pd.to_numeric\<close> gives a cell it accepts.\<close>

definition num_of :: "env \<Rightarrow> cell \<Rightarrow> pyfloat" where
  "num_of e c = (case to_numeric_cell e c of Some x \<Rightarrow> x | None \<Rightarrow> NaN)"

text \<open>Every cell of column \<open>i\<close> is accepted by \<^verbatim>\<open>pd.to_numeric\<close>.\<close>

definition parses_numeric :: "env \<Rightarrow> frame \<Rightarrow> nat \<Rightarrow> bool" where
  "parses_numeric e df i = list_all (\<lambda>r. to_numeric_cell e (r ! i) \<noteq> None) (rows df)"

text \<open>
  The merge policy of the specification: the distinct values of a column within a group,
  as texts, in first-seen order and without the empty text, joined with a space, or with
  \<^verbatim>\<open>' | '\<close> for the ligand names.
\<close>

definition merge_tokens :: "env \<Rightarrow> cell list \<Rightarrow> string list" where
  "merge_tokens e vals = filter (\<lambda>s. s \<noteq> []) (unique (map (astype_str e) vals))"

definition merge_text :: "env \<Rightarrow> string \<Rightarrow> cell list \<Rightarrow> string" where
  "merge_text e col_nm vals =
     py_join (if col_nm = ''Ligand Name(s)'' then '' | '' else '' '') (merge_tokens e vals)"

text \<open>The rows of a frame that carry the key \<open>k\<close> in column \<open>ki\<close>: one identifier group.\<close>

definition group_of :: "frame \<Rightarrow> nat \<Rightarrow> cell \<Rightarrow> cell list list" where
  "group_of df ki k = filter (\<lambda>r. r ! ki = k) (rows df)"

text \<open>
  A row of a group after the merge: the cells of the columns named in \<open>col_names\<close> hold
  the merged text of the group, the others are as they were.
\<close>

definition merge_row ::
  "env \<Rightarrow> cell list \<Rightarrow> string list \<Rightarrow> cell list list \<Rightarrow> cell list \<Rightarrow> cell list" where
  "merge_row e cols col_names grp r =
     map (\<lambda>j. case cols ! j of
                 Str nm \<Rightarrow>
                   if nm \<in> set col_names then Str (merge_text e nm (column j grp)) else r ! j
               | _ \<Rightarrow> r ! j)
       [0..<length r]"

text \<open>
  The columns that are neither merged nor dropped are constant within every identifier
  group: rows with the same key in column \<open>ki\<close> agree on them.
\<close>

definition constant_in_groups :: "frame \<Rightarrow> nat \<Rightarrow> string list \<Rightarrow> bool" where
  "constant_in_groups df ki col_names =
     list_all
       (\<lambda>j. columns df ! j \<in> Str ` set col_names \<or> columns df ! j = Str ''chainId''
            \<or> list_all (\<lambda>r1. list_all (\<lambda>r2. r1 ! ki \<noteq> r2 ! ki \<or> r1 ! j = r2 ! j) (rows df))
                 (rows df))
       [0..<length (columns df)]"

text \<open>
  The reference pipeline of the specification for the Table Builder, on the parsed rows:
  rows that repeat an earlier row are removed, row 0 is the header, row 0 and the last
  row are discarded, and the header is renamed by the field map.
\<close>

definition spec_dedup :: "'a list \<Rightarrow> 'a list" where
  "spec_dedup rs = map (\<lambda>i. rs ! i) (filter (\<lambda>i. rs ! i \<notin> set (take i rs)) [0..<length rs])"

definition spec_rename :: "string \<Rightarrow> string" where
  "spec_rename k = (case map_of FIELDS_DICT k of Some v \<Rightarrow> v | None \<Rightarrow> k)"

definition reference_table :: "string list list \<Rightarrow> string list \<times> string list list" where
  "reference_table parsed =
     (let table = spec_dedup parsed
      in (map spec_rename (hd table), butlast (tl table)))"

text \<open>
  A header and rows of texts as pandas holds them in a frame of width \<open>w\<close>: what is
  shorter is filled with \<^verbatim>\<open>None\<close>.
\<close>

definition as_frame :: "nat \<Rightarrow> string list \<times> string list list \<Rightarrow> frame" where
  "as_frame w t = \<lparr>columns = pad w (fst t), rows = map (pad w) (snd t)\<rparr>"

text \<open>The text the fetch loop builds when every request is answered.\<close>

definition concat_reports :: "env \<Rightarrow> string list \<Rightarrow> string \<Rightarrow> string" where
  "concat_reports e pdb_id_list field_names =
     concat (map (\<lambda>pdb_num. case fetch e pdb_num field_names of Some t \<Rightarrow> t | None \<Rightarrow> [])
               pdb_id_list)"

subsection \<open>An environment and tables for the examples\<close>

text \<open>
  In the examples the remote service knows three identifiers, two found by X-ray and one by
  NMR, and the texts hold no quotes and no carriage returns, so that lines end at line
  feeds and fields at commas. The report of the last X-ray identifier ends with a blank
  line.
\<close>

fun split_at :: "char \<Rightarrow> string \<Rightarrow> string list" where
  "split_at c [] = [[]]"
| "split_at c (x # xs) =
     (if x = c then [] # split_at c xs
      else (case split_at c xs of [] \<Rightarrow> [[x]] | f # fs \<Rightarrow> (x # f) # fs))"

definition plain_lines :: "string \<Rightarrow> string list" where
  "plain_lines s =
     (let ps = split_at (CHR 0x0A) s in if last ps = [] then butlast ps else ps)"

definition plain_fields :: "string \<Rightarrow> string list" where
  "plain_fields l = (if l = [] then [] else split_at (CHR '','') l)"

definition render :: "frame \<Rightarrow> string" where
  "render df =
     concat (map (\<lambda>r. py_join '','' (map (\<lambda>c. case c of Str s \<Rightarrow> s | _ \<Rightarrow> []) r) @ [CHR 0x0A])
               (columns df # rows df))"

definition example_report :: "string \<Rightarrow> string" where
  "example_report pdb =
     (if pdb = ''1ABC''
      then ''structureId,chainId,resolution,releaseDate'' @ [CHR 0x0A]
           @ ''1ABC,A,2.4,2001-01-01'' @ [CHR 0x0A]
           @ ''1ABC,B,2.4,2001-01-01'' @ [CHR 0x0A]
      else if pdb = ''2XYZ''
      then ''structureId,chainId,resolution,releaseDate'' @ [CHR 0x0A]
           @ ''2XYZ,A,2.6,2002-02-02'' @ [CHR 0x0A] @ [CHR 0x0A]
      else if pdb = ''3NMR''
      then ''structureId,releaseDate'' @ [CHR 0x0A] @ ''3NMR,2003-03-03'' @ [CHR 0x0A]
      else [])"

definition example_env :: env where
  "example_env =
     \<lparr>search_ids = (\<lambda>m. if m = ''X-RAY'' then Some [''1ABC'', ''2XYZ'']
                        else if m = ''SOLUTION NMR'' then Some [''3NMR'']
                        else Some []),
      fetch = (\<lambda>pdb fields. Some (example_report pdb)),
      splitlines = plain_lines,
      csv_reader = map plain_fields,
      str_to_float = map_of [(''2.4'', Fin 2.4), (''2.5'', Fin 2.5), (''2.6'', Fin 2.6)],
      float_to_str = (\<lambda>x. ''0.0''),
      to_datetime_ok = (\<lambda>cs. True),
      to_csv = (\<lambda>df. Some (render df))\<rparr>"

text \<open>The same environment, but the write step leaves no file.\<close>

definition failing_env :: env where
  "failing_env = example_env\<lparr>to_csv := (\<lambda>df. None)\<rparr>"

text \<open>A file system that holds the output of an earlier run.\<close>

definition old_files :: fs where
  "old_files = Map.empty(''out.csv'' := Some ''previous'')"

text \<open>The full table of the X-ray example.\<close>

definition xray_table :: frame where
  "xray_table =
     \<lparr>columns = [Str ''PDB ID'', Str ''chainId'', Str ''Resolution'', Str ''Rel. Date''],
      rows = [[Str ''1ABC'', Str ''A'', Str ''2.4'', Str ''2001-01-01''],
              [Str ''1ABC'', Str ''B'', Str ''2.4'', Str ''2001-01-01''],
              [Str ''2XYZ'', Str ''A'', Str ''2.6'', Str ''2002-02-02'']]\<rparr>"

definition example_args :: cmd_args where
  "example_args =
     \<lparr>outfile = ''out.csv'', method_name = ''X-RAY'', min_res = None, condensed = False\<rparr>"

definition boundary_df :: frame where
  "boundary_df =
     \<lparr>columns = [Str ''PDB ID'', Str ''Resolution''],
      rows = [[Str ''1AAA'', Str ''2.4''], [Str ''1BBB'', Str ''2.5''],
              [Str ''1CCC'', Str ''2.6'']]\<rparr>"

definition blank_df :: frame where
  "blank_df =
     \<lparr>columns = [Str ''PDB ID'', Str ''Resolution''],
      rows = [[Str ''1AAA'', Str []], [Str ''1BBB'', Str ''2.5'']]\<rparr>"

definition chains_df :: frame where
  "chains_df =
     \<lparr>columns = [Str ''PDB ID'', Str ''chainId'', Str ''Source'', Str ''Ligand Name(s)''],
      rows = [[Str ''2XYZ'', Str ''A'', Str ''A'', Str ''X''],
              [Str ''2XYZ'', Str ''B'', Str [], Str ''Y''],
              [Str ''1ABC'', Str ''A'', PyNone, Str ''Z''],
              [Str ''2XYZ'', Str ''C'', Str ''B'', Str ''X''],
              [Str ''2XYZ'', Str ''D'', Str ''A'', Str ''X'']]\<rparr>"


text \<open>What the Aggregator makes of \<open>chains_df\<close> when the source and the ligand names are merged.\<close>

definition chains_merged :: frame where
  "chains_merged =
     \<lparr>columns = [Str ''PDB ID'', Str ''chainId'', Str ''Source'', Str ''Ligand Name(s)''],
      rows = replicate 2 [Str ''1ABC'', Str ''A'', Str ''None'', Str ''Z'']
             @ concat (replicate 2
                 [[Str ''2XYZ'', Str ''A'', Str ''A B'', Str ''X | Y''],
                  [Str ''2XYZ'', Str ''B'', Str ''A B'', Str ''X | Y''],
                  [Str ''2XYZ'', Str ''C'', Str ''A B'', Str ''X | Y''],
                  [Str ''2XYZ'', Str ''D'', Str ''A B'', Str ''X | Y'']])\<rparr>"

definition chains_condensed :: frame where
  "chains_condensed =
     \<lparr>columns = [Str ''PDB ID'', Str ''Source'', Str ''Ligand Name(s)''],
      rows = [[Str ''1ABC'', Str ''None'', Str ''Z''],
              [Str ''2XYZ'', Str ''A B'', Str ''X | Y'']]\<rparr>"

section \<open>Properties\<close>

subsection \<open>Columns, slices and first occurrences\<close>

lemma well_formed_iff:
  "well_formed df = (\<forall>r\<in>set (rows df). length r = length (columns df))"
  by (simp add: well_formed_def list_all_iff)

lemma field_values:
  "field PDB_ID_KEY = ''PDB ID''" "field LIG_NAME_KEY = ''Ligand Name(s)''"
  "field RES_KEY = ''Resolution''" "field REL_DATE_KEY = ''Rel. Date''"
  "field PUBMED_KEY = ''Pubmed ID''" "field SOURCE_KEY = ''Source''"
  "field MACRO_TYPE_KEY = ''Macromol. Type''" "field UNIPROT_ID_KEY = ''Uniprot ID''"
  by (simp_all add: field_def FIELDS_DICT_def PDB_ID_KEY_def STRUCT_TITLE_KEY_def RES_KEY_def
      LIG_NAME_KEY_def CLASS_KEY_def MACRO_TYPE_KEY_def EMDB_KEY_def PUBMED_KEY_def
      REL_DATE_KEY_def EXP_TECHNIQUE_KEY_def UNIPROT_ID_KEY_def SOURCE_KEY_def LIG_SMILES_KEY_def)

lemma col_positions_props:
  "col_positions cols c = [i] \<Longrightarrow> i < length cols \<and> cols ! i = c"
proof -
  assume a: "col_positions cols c = [i]"
  have "i \<in> set (col_positions cols c)" using a by simp
  then show ?thesis by (simp add: col_positions_def)
qed

lemma col_positions_unique:
  assumes "col_positions cols c = [i]" "j < length cols" "cols ! j = c"
  shows "j = i"
proof -
  have "j \<in> set (col_positions cols c)" using assms(2,3) by (simp add: col_positions_def)
  then show ?thesis using assms(1) by simp
qed

lemma get_col_Inr:
  "get_col d cols c = Inr i \<Longrightarrow> col_positions cols c = [i]"
  by (auto simp: get_col_def split: list.splits)

lemma get_col_props:
  "get_col d cols c = Inr i \<Longrightarrow> i < length cols \<and> cols ! i = c"
  using get_col_Inr col_positions_props by blast

lemma col_positions_filter:
  "map (\<lambda>i. cols ! i) (col_positions cols c) = filter (\<lambda>x. x = c) cols"
proof -
  have "filter (\<lambda>x. x = c) (map (\<lambda>i. cols ! i) [0..<length cols])
        = map (\<lambda>i. cols ! i) (filter (\<lambda>i. cols ! i = c) [0..<length cols])"
    by (simp add: filter_map comp_def)
  then show ?thesis by (simp add: col_positions_def map_nth)
qed

lemma get_col_count:
  "(\<exists>i. get_col dup cols c = Inr i) = (length (filter (\<lambda>x. x = c) cols) = 1)"
proof -
  have "length (filter (\<lambda>x. x = c) cols) = length (col_positions cols c)"
  proof -
    have "length (map (\<lambda>i. cols ! i) (col_positions cols c)) = length (filter (\<lambda>x. x = c) cols)"
      by (simp only: col_positions_filter)
    then show ?thesis by simp
  qed
  then show ?thesis
    by (auto simp: get_col_def split: list.splits)
qed

lemma distinct_singleton: "distinct xs \<Longrightarrow> set xs = {a} \<Longrightarrow> xs = [a]"
proof (cases xs)
  case Nil
  assume "set xs = {a}"
  with Nil show ?thesis by simp
next
  case (Cons b bs)
  assume d: "distinct xs" and s: "set xs = {a}"
  with Cons have "b = a" "set bs \<subseteq> {a}" "a \<notin> set bs" by auto
  then have "bs = []" by (cases bs) auto
  with Cons \<open>b = a\<close> show ?thesis by simp
qed






lemma set_unique_from: "set (unique_from seen xs) = set xs - set seen"
  by (induction xs arbitrary: seen) auto

lemma distinct_unique_from: "distinct (unique_from seen xs)"
  by (induction xs arbitrary: seen) (auto simp: set_unique_from)

lemma set_unique: "set (unique xs) = set xs"
  by (simp add: unique_def set_unique_from)

lemma distinct_unique: "distinct (unique xs)"
  by (simp add: unique_def distinct_unique_from)

text \<open>Only the members of \<open>seen\<close> that occur in the list matter.\<close>

lemma unique_from_cong:
  "set seen \<inter> set ys = set seen' \<inter> set ys \<Longrightarrow> unique_from seen ys = unique_from seen' ys"
proof (induction ys arbitrary: seen seen')
  case Nil
  then show ?case by simp
next
  case (Cons y ys)
  have m: "(y \<in> set seen) = (y \<in> set seen')" using Cons.prems by auto
  have "set seen \<inter> set ys = set seen' \<inter> set ys" using Cons.prems by auto
  then have a: "unique_from seen ys = unique_from seen' ys" by (rule Cons.IH)
  have "set (y # seen) \<inter> set ys = set (y # seen') \<inter> set ys" using Cons.prems by auto
  then have b: "unique_from (y # seen) ys = unique_from (y # seen') ys" by (rule Cons.IH)
  show ?case using m a b by simp
qed

lemma filter_unique_from:
  "filter P (unique_from seen xs) = unique_from seen (filter P xs)"
proof (induction xs arbitrary: seen)
  case Nil
  then show ?case by simp
next
  case (Cons x xs)
  show ?case
  proof (cases "x \<in> set seen")
    case True
    then show ?thesis using Cons.IH by simp
  next
    case False
    show ?thesis
    proof (cases "P x")
      case True
      with False show ?thesis using Cons.IH by simp
    next
      case np: False
      have "set (x # seen) \<inter> set (filter P xs) = set seen \<inter> set (filter P xs)"
        using np by auto
      then have "unique_from (x # seen) (filter P xs) = unique_from seen (filter P xs)"
        by (rule unique_from_cong)
      with False np show ?thesis using Cons.IH by simp
    qed
  qed
qed

lemma filter_unique: "filter P (unique xs) = unique (filter P xs)"
  by (simp add: unique_def filter_unique_from)

lemma unique_all_equal:
  assumes "xs \<noteq> []" and "\<forall>x\<in>set xs. x = y"
  shows "unique xs = [y]"
proof (rule distinct_singleton)
  show "distinct (unique xs)" by (rule distinct_unique)
  show "set (unique xs) = {y}" using assms by (cases xs) (auto simp: set_unique)
qed

lemma unique_map_inj:
  "inj_on f (set seen \<union> set xs) \<Longrightarrow>
     unique_from (map f seen) (map f xs) = map f (unique_from seen xs)"
proof (induction xs arbitrary: seen)
  case Nil
  then show ?case by simp
next
  case (Cons x xs)
  have i1: "inj_on f (set seen \<union> set xs)" using Cons.prems by (auto simp: inj_on_def)
  have i2: "inj_on f (set (x # seen) \<union> set xs)" using Cons.prems by (auto simp: inj_on_def)
  have m: "(f x \<in> f ` set seen) = (x \<in> set seen)" using Cons.prems by (auto simp: inj_on_def)
  show ?case using Cons.IH[OF i1] Cons.IH[OF i2] m by simp
qed

subsection \<open>The threshold of the run\<close>

lemma full_table_zero:
  "full_table e (args\<lparr>min_res := Some (Fin 0)\<rparr>) = full_table e (args\<lparr>min_res := None\<rparr>)"
  by (simp add: full_table_def split: sum.split)

lemma write_condensed_min_res:
  "write_condensed e (args\<lparr>min_res := a\<rparr>) df files = write_condensed e args df files"
  by (simp add: write_condensed_def split: sum.split)

lemma write_full_min_res:
  "write_full e (args\<lparr>min_res := a\<rparr>) df files = write_full e args df files"
  by (simp add: write_full_def write_condensed_min_res Let_def split: sum.split option.split)

lemma parse_args_min_res:
  "parse_args (args\<lparr>min_res := a\<rparr>) =
     (case parse_args args of Inl err \<Rightarrow> Inl err | Inr x \<Rightarrow> Inr (x\<lparr>min_res := a\<rparr>))"
  by (simp add: parse_args_def)

lemma parse_args_same: "parse_args args = Inr x \<Longrightarrow> x = args"
  by (simp add: parse_args_def split: if_splits)

text \<open>
  C9. \<^verbatim>\<open>main\<close> tests \<^verbatim>\<open>cmd_args.min_res\<close> for truth, and \<open>0.0\<close> is false: with a
  threshold of \<open>0.0\<close> the filter is not applied, the full table is the unfiltered one, and
  the whole run (how it ends and the files it leaves) is the run without a threshold.
\<close>

theorem zero_threshold_is_no_threshold:
  "full_table e (args\<lparr>min_res := Some (Fin 0)\<rparr>) = full_table e (args\<lparr>min_res := None\<rparr>)
   \<and> main e (args\<lparr>min_res := Some (Fin 0)\<rparr>) files = main e (args\<lparr>min_res := None\<rparr>) files"
proof
  show "full_table e (args\<lparr>min_res := Some (Fin 0)\<rparr>) = full_table e (args\<lparr>min_res := None\<rparr>)"
    by (rule full_table_zero)
  show "main e (args\<lparr>min_res := Some (Fin 0)\<rparr>) files = main e (args\<lparr>min_res := None\<rparr>) files"
  proof (cases "parse_args args")
    case (Inl err)
    then show ?thesis by (simp add: main_def parse_args_min_res)
  next
    case (Inr x)
    then have "x = args" by (rule parse_args_same)
    with Inr show ?thesis
      by (simp add: main_def parse_args_min_res full_table_zero write_full_min_res
            split: sum.split)
  qed
qed

text \<open>
  The run of the example with the threshold \<open>0.0\<close>: it ends normally and leaves the
  output file of the run without a threshold.
\<close>

theorem zero_threshold_witness:
  "main example_env (example_args\<lparr>min_res := Some (Fin 0)\<rparr>) Map.empty
     = main example_env example_args Map.empty
   \<and> fst (main example_env example_args Map.empty) = Inr ()"
proof -
  have a: "example_args\<lparr>min_res := None\<rparr> = example_args"
    by (simp add: example_args_def)
  have b: "fst (main example_env example_args Map.empty) = Inr ()"
    by code_simp
  show ?thesis
    using zero_threshold_is_no_threshold[of example_env example_args Map.empty] a b by simp
qed

subsection \<open>The Resolution Filter\<close>

lemma to_numeric_eq:
  "to_numeric e cs =
     (if \<exists>c\<in>set cs. to_numeric_cell e c = None then Inl ValueError
      else Inr (map (num_of e) cs))"
  by (induction cs) (auto simp: num_of_def split: option.splits)

text \<open>Selecting by the mask is filtering by the comparison.\<close>

lemma mask_rows:
  "map fst (filter snd (zip (map (\<lambda>(r, x). r[i := Flt x]) (zip rs (map f rs)))
                            (map (\<lambda>x. float_le x t) (map f rs))))
   = map (\<lambda>r. r[i := Flt (f r)]) (filter (\<lambda>r. float_le (f r) t) rs)"
  by (induction rs) auto

lemma filter_by_res_eq:
  assumes col: "get_col TypeError (columns df) (Str h) = Inr i"
  shows "filter_by_res e df t h =
           (if \<exists>r\<in>set (rows df). to_numeric_cell e (r ! i) = None then Inl ValueError
            else Inr (df\<lparr>rows := map (\<lambda>r. r[i := Flt (num_of e (r ! i))])
                               (filter (\<lambda>r. float_le (num_of e (r ! i)) t) (rows df))\<rparr>))"
proof -
  have c: "map (num_of e) (column i (rows df)) = map (\<lambda>r. num_of e (r ! i)) (rows df)"
    by (simp add: column_def)
  have s: "(\<exists>c\<in>set (column i (rows df)). to_numeric_cell e c = None)
           = (\<exists>r\<in>set (rows df). to_numeric_cell e (r ! i) = None)"
    by (auto simp: column_def)
  show ?thesis
    by (simp only: filter_by_res_def col sum.case to_numeric_eq s c Let_def mask_rows
          if_distrib[of "case_sum _ _"] cong: if_cong)
qed

lemma cell_unparsed:
  "(to_numeric_cell e c = None) = (\<exists>s. c = Str s \<and> s \<noteq> [] \<and> str_to_float e s = None)"
  by (cases c) auto

lemma float_le_not_NaN: "float_le x t \<Longrightarrow> x \<noteq> NaN"
  by (cases x) auto

text \<open>
  C3. When the resolution column is there and every cell of it is accepted as a number,
  the filter returns a table: the columns are those of the input, and the rows are the
  input rows whose resolution is less than or equal to the threshold, in their order,
  each with its resolution cell as a number.
\<close>

theorem resolution_filter_keeps_le:
  assumes col: "get_col TypeError (columns df) (Str h) = Inr i"
    and wf: "well_formed df"
    and num: "parses_numeric e df i"
  shows "\<exists>out. filter_by_res e df t h = Inr out
           \<and> columns out = columns df
           \<and> rows out = map (\<lambda>r. r[i := Flt (num_of e (r ! i))])
                           (filter (\<lambda>r. float_le (num_of e (r ! i)) t) (rows df))
           \<and> well_formed out"
proof -
  have n: "\<not> (\<exists>r\<in>set (rows df). to_numeric_cell e (r ! i) = None)"
    using num by (simp add: parses_numeric_def list_all_iff)
  have w: "\<forall>r\<in>set (rows df). length r = length (columns df)"
    using wf by (simp add: well_formed_iff)
  show ?thesis
    using n w by (auto simp: filter_by_res_eq[OF col] well_formed_iff)
qed

text \<open>
  The boundary example of the specification: with the threshold 2.5 and the resolutions
  2.4, 2.5 and 2.6, the first two rows are kept.
\<close>

theorem resolution_filter_boundary:
  "get_col TypeError (columns boundary_df) (Str ''Resolution'') = Inr 1
   \<and> well_formed boundary_df
   \<and> parses_numeric example_env boundary_df 1
   \<and> filter_by_res example_env boundary_df (Fin 2.5) ''Resolution''
       = Inr \<lparr>columns = [Str ''PDB ID'', Str ''Resolution''],
              rows = [[Str ''1AAA'', Flt (Fin 2.4)], [Str ''1BBB'', Flt (Fin 2.5)]]\<rparr>"
proof -
  have c: "get_col TypeError (columns boundary_df) (Str ''Resolution'') = Inr 1"
    by code_simp
  have w: "well_formed boundary_df" by code_simp
  have n: "parses_numeric example_env boundary_df 1" by code_simp
  from resolution_filter_keeps_le[OF c w n, of "Fin 2.5"] obtain out where
    o: "filter_by_res example_env boundary_df (Fin 2.5) ''Resolution'' = Inr out" and
    cs: "columns out = columns boundary_df" and
    rs: "rows out = map (\<lambda>r. r[1 := Flt (num_of example_env (r ! 1))])
                      (filter (\<lambda>r. float_le (num_of example_env (r ! 1)) (Fin 2.5))
                         (rows boundary_df))"
    by blast
  have rv: "map (\<lambda>r. r[1 := Flt (num_of example_env (r ! 1))])
              (filter (\<lambda>r. float_le (num_of example_env (r ! 1)) (Fin 2.5)) (rows boundary_df))
            = [[Str ''1AAA'', Flt (Fin 2.4)], [Str ''1BBB'', Flt (Fin 2.5)]]"
    by code_simp
  have "out = \<lparr>columns = [Str ''PDB ID'', Str ''Resolution''],
               rows = [[Str ''1AAA'', Flt (Fin 2.4)], [Str ''1BBB'', Flt (Fin 2.5)]]\<rparr>"
    using cs rs rv by (cases out) (simp add: boundary_df_def)
  then show ?thesis using c w n o by simp
qed

text \<open>
  C6, as the program has it. The filter raises \<^verbatim>\<open>ValueError\<close> exactly when some cell
  of the resolution column is a non-empty text that denotes no number, and returns a
  table otherwise. An empty text and a missing cell do not raise: \<^verbatim>\<open>pd.to_numeric\<close>
  makes them NaN, and no row whose resolution is NaN passes the comparison, so their rows
  are dropped.
\<close>

theorem resolution_filter_fails_iff:
  assumes col: "get_col TypeError (columns df) (Str h) = Inr i"
  shows "((filter_by_res e df t h = Inl ValueError)
            = (\<exists>r\<in>set (rows df). \<exists>s. r ! i = Str s \<and> s \<noteq> [] \<and> str_to_float e s = None))
       \<and> ((\<exists>out. filter_by_res e df t h = Inr out)
            = (\<not> (\<exists>r\<in>set (rows df). \<exists>s. r ! i = Str s \<and> s \<noteq> [] \<and> str_to_float e s = None)))
       \<and> num_of e (Str []) = NaN \<and> num_of e PyNone = NaN
       \<and> (\<forall>out. well_formed df \<and> filter_by_res e df t h = Inr out \<longrightarrow>
             (\<forall>r'\<in>set (rows out). \<exists>x. r' ! i = Flt x \<and> x \<noteq> NaN))"
proof -
  have a: "(filter_by_res e df t h = Inl ValueError)
            = (\<exists>r\<in>set (rows df). \<exists>s. r ! i = Str s \<and> s \<noteq> [] \<and> str_to_float e s = None)"
    by (auto simp: filter_by_res_eq[OF col] cell_unparsed)
  have b: "(\<exists>out. filter_by_res e df t h = Inr out)
            = (\<not> (\<exists>r\<in>set (rows df). \<exists>s. r ! i = Str s \<and> s \<noteq> [] \<and> str_to_float e s = None))"
    by (auto simp: filter_by_res_eq[OF col] cell_unparsed)
  have c: "num_of e (Str []) = NaN \<and> num_of e PyNone = NaN"
    by (simp add: num_of_def)
  have ip: "i < length (columns df)" using get_col_props[OF col] by simp
  have d: "\<forall>out. well_formed df \<and> filter_by_res e df t h = Inr out \<longrightarrow>
             (\<forall>r'\<in>set (rows out). \<exists>x. r' ! i = Flt x \<and> x \<noteq> NaN)"
    using ip by (auto simp: filter_by_res_eq[OF col] well_formed_iff float_le_not_NaN
        split: if_splits)
  show ?thesis using a b c d by blast
qed

text \<open>
  A table with a blank resolution: the filter returns a table, and every row of it holds
  a number.
\<close>

theorem resolution_filter_blank_passes:
  "get_col TypeError (columns blank_df) (Str ''Resolution'') = Inr 1
   \<and> well_formed blank_df
   \<and> (\<exists>out. filter_by_res example_env blank_df (Fin 2.5) ''Resolution'' = Inr out
          \<and> list_all (\<lambda>r'. \<exists>x. r' ! 1 = Flt x \<and> x \<noteq> NaN) (rows out))"
proof -
  have c: "get_col TypeError (columns blank_df) (Str ''Resolution'') = Inr 1"
    by code_simp
  have w: "well_formed blank_df" by code_simp
  note t = resolution_filter_fails_iff[OF c, of example_env "Fin 2.5"]
  have "\<not> (\<exists>r\<in>set (rows blank_df). \<exists>s. r ! 1 = Str s \<and> s \<noteq> []
              \<and> str_to_float example_env s = None)"
    by (simp add: blank_df_def example_env_def)
  with t obtain out where
    o: "filter_by_res example_env blank_df (Fin 2.5) ''Resolution'' = Inr out" by blast
  with t w have "\<forall>r'\<in>set (rows out). \<exists>x. r' ! 1 = Flt x \<and> x \<noteq> NaN" by blast
  then show ?thesis using c w o by (simp add: list_all_iff)
qed

text \<open>
  Where the claim of the specification fails: the empty text denotes no number, yet the
  filter does not raise on it; the row is dropped.
\<close>

theorem blank_resolution_row_is_dropped:
  "str_to_float example_env [] = None
   \<and> to_numeric_cell example_env (Str []) = Some NaN
   \<and> filter_by_res example_env blank_df (Fin 2.5) ''Resolution''
       = Inr \<lparr>columns = [Str ''PDB ID'', Str ''Resolution''],
              rows = [[Str ''1BBB'', Flt (Fin 2.5)]]\<rparr>"
  by code_simp

subsection \<open>The Aggregator\<close>

lemma merge_text_again:
  assumes "0 < n"
  shows "merge_text e nm (replicate n (Str (merge_text e nm vals))) = merge_text e nm vals"
proof -
  define J where "J = merge_text e nm vals"
  have u: "unique (replicate n J) = [J]"
    using assms by (intro unique_all_equal) auto
  have "merge_tokens e (replicate n (Str J)) = filter (\<lambda>s. s \<noteq> []) (unique (replicate n J))"
    by (simp add: merge_tokens_def)
  also have "\<dots> = (if J = [] then [] else [J])"
    by (simp add: u)
  finally have "merge_text e nm (replicate n (Str J)) = J"
    by (simp add: merge_text_def)
  then show ?thesis by (simp add: J_def)
qed

lemma merge_row_length [simp]: "length (merge_row e cols names g r) = length r"
  by (simp add: merge_row_def)

lemma merge_row_nth:
  "j < length r \<Longrightarrow> merge_row e cols names g r ! j =
     (case cols ! j of
        Str nm \<Rightarrow> if nm \<in> set names then Str (merge_text e nm (column j g)) else r ! j
      | _ \<Rightarrow> r ! j)"
  by (simp add: merge_row_def split: cell.split)

lemma merge_row_Nil: "merge_row e cols [] g r = r"
  by (rule nth_equalityI) (simp_all add: merge_row_nth split: cell.split)

text \<open>
  One pass of the inner loop: if the rows of the group are merged for the names \<open>dn\<close>
  already handled, merging the column \<open>c\<close> gives the rows merged for \<open>dn @ [c]\<close>. A
  column that is merged a second time keeps its text.
\<close>

lemma merge_step:
  assumes pos: "col_positions cols (Str c) = [i]"
    and wf: "\<forall>r\<in>set g0. length r = length cols"
  shows "set_column i (Str (merge_text e c (column i (map (merge_row e cols dn g0) g0))))
           (map (merge_row e cols dn g0) g0)
         = map (merge_row e cols (dn @ [c]) g0) g0"
proof -
  have i: "i < length cols" "cols ! i = Str c"
    using col_positions_props[OF pos] by simp_all
  have col: "column i (map (merge_row e cols dn g0) g0) =
      (if c \<in> set dn then replicate (length g0) (Str (merge_text e c (column i g0)))
       else column i g0)"
  proof -
    have "\<And>r. r \<in> set g0 \<Longrightarrow> merge_row e cols dn g0 r ! i =
        (if c \<in> set dn then Str (merge_text e c (column i g0)) else r ! i)"
      using wf i by (simp add: merge_row_nth)
    then have m: "map (\<lambda>r. merge_row e cols dn g0 r ! i) g0
        = map (\<lambda>r. if c \<in> set dn then Str (merge_text e c (column i g0)) else r ! i) g0"
      by simp
    show ?thesis
    proof (cases "c \<in> set dn")
      case True
      then show ?thesis using m by (simp add: column_def comp_def map_replicate_const)
    next
      case False
      then show ?thesis using m by (simp add: column_def comp_def)
    qed
  qed
  have v: "g0 \<noteq> [] \<Longrightarrow> merge_text e c (column i (map (merge_row e cols dn g0) g0))
      = merge_text e c (column i g0)"
    unfolding col by (simp add: merge_text_again)
  have row: "\<And>r. r \<in> set g0 \<Longrightarrow>
      (merge_row e cols dn g0 r)[i := Str (merge_text e c (column i g0))]
      = merge_row e cols (dn @ [c]) g0 r"
  proof -
    fix r assume r: "r \<in> set g0"
    then have len: "length r = length cols" using wf by simp
    show "(merge_row e cols dn g0 r)[i := Str (merge_text e c (column i g0))]
      = merge_row e cols (dn @ [c]) g0 r"
    proof (rule nth_equalityI)
      show "length ((merge_row e cols dn g0 r)[i := Str (merge_text e c (column i g0))])
          = length (merge_row e cols (dn @ [c]) g0 r)" by simp
    next
      fix j assume "j < length ((merge_row e cols dn g0 r)[i := Str (merge_text e c (column i g0))])"
      then have j: "j < length r" by simp
      show "(merge_row e cols dn g0 r)[i := Str (merge_text e c (column i g0))] ! j
          = merge_row e cols (dn @ [c]) g0 r ! j"
      proof (cases "j = i")
        case True
        then show ?thesis using j i by (simp add: merge_row_nth)
      next
        case False
        then have "cols ! j \<noteq> Str c"
          using col_positions_unique[OF pos, of j] j len by auto
        then show ?thesis using False j
          by (auto simp: merge_row_nth split: cell.split)
      qed
    qed
  qed
  show ?thesis
  proof (cases "g0 = []")
    case True
    then show ?thesis by (simp add: set_column_def)
  next
    case False
    then show ?thesis using row by (simp add: v set_column_def)
  qed
qed

lemma concat_group_refine:
  assumes wf: "\<forall>r\<in>set g0. length r = length cols"
  shows "concat_group e cols rest (map (merge_row e cols dn g0) g0) = Inr g'
         \<Longrightarrow> g' = map (merge_row e cols (dn @ rest) g0) g0"
proof (induction rest arbitrary: dn)
  case Nil
  then show ?case by simp
next
  case (Cons c rest)
  from Cons.prems obtain i where gi: "get_col AttributeError cols (Str c) = Inr i"
    by (auto split: sum.splits)
  have pos: "col_positions cols (Str c) = [i]" using gi by (rule get_col_Inr)
  have "concat_group e cols rest
          (set_column i (Str (merge_text e c (column i (map (merge_row e cols dn g0) g0))))
             (map (merge_row e cols dn g0) g0)) = Inr g'"
    using Cons.prems gi by (simp add: Let_def merge_text_def merge_tokens_def field_values)
  then have "concat_group e cols rest (map (merge_row e cols (dn @ [c]) g0) g0) = Inr g'"
    by (simp only: merge_step[OF pos wf])
  then have "g' = map (merge_row e cols ((dn @ [c]) @ rest) g0) g0"
    by (rule Cons.IH)
  then show ?case by simp
qed

text \<open>The inner loop merges every named column of the group.\<close>

lemma concat_group_result:
  assumes wf: "\<forall>r\<in>set g0. length r = length cols"
    and ok: "concat_group e cols names g0 = Inr g'"
  shows "g' = map (merge_row e cols names g0) g0"
proof -
  have "map (merge_row e cols [] g0) g0 = g0" by (rule map_idI) (simp add: merge_row_Nil)
  then have "concat_group e cols names (map (merge_row e cols [] g0) g0) = Inr g'"
    using ok by simp
  then have "g' = map (merge_row e cols ([] @ names) g0) g0"
    by (rule concat_group_refine[OF wf])
  then show ?thesis by simp
qed

lemma concat_group_names:
  "concat_group e cols names g = Inr g' \<Longrightarrow>
     \<forall>nm\<in>set names. \<exists>j. get_col AttributeError cols (Str nm) = Inr j"
  by (induction names arbitrary: g) (auto split: sum.splits simp: Let_def)

lemma set_insert_key: "set (insert_key k xs) = insert k (set xs)"
  by (induction xs) auto

lemma set_sort_keys: "set (sort_keys ks) = set ks"
  unfolding sort_keys_def by (induction ks) (auto simp: set_insert_key)

lemma distinct_insert_key: "distinct (insert_key k xs) = (k \<notin> set xs \<and> distinct xs)"
  by (induction xs) (auto simp: set_insert_key)

lemma distinct_sort_keys: "distinct ks \<Longrightarrow> distinct (sort_keys ks)"
  unfolding sort_keys_def
proof (induction ks)
  case Nil
  then show ?case by simp
next
  case (Cons k ks)
  have "set (foldr insert_key ks []) = set ks"
    using set_sort_keys[of ks] by (simp add: sort_keys_def)
  then show ?case using Cons by (simp add: distinct_insert_key)
qed

text \<open>The outer loop appends every merged group once per column name.\<close>

lemma concat_groups_result:
  assumes wf: "\<forall>g\<in>set grouped. \<forall>r\<in>set (snd g). length r = length cols"
    and ok: "concat_groups e cols names grouped results = Inr res"
  shows "res = results @ concat (map (\<lambda>g. replicate (length names)
                                   (map (merge_row e cols names (snd g)) (snd g))) grouped)"
  using wf ok
proof (induction grouped arbitrary: results)
  case Nil
  then show ?case by simp
next
  case (Cons g grouped)
  obtain name grp where g: "g = (name, grp)" by (cases g)
  from Cons.prems(2) obtain grp' where
    a: "concat_group e cols names grp = Inr grp'" and
    b: "concat_groups e cols names grouped (results @ replicate (length names) grp') = Inr res"
    by (auto simp: g split: sum.splits)
  have w: "\<forall>r\<in>set grp. length r = length cols" using Cons.prems(1) g by simp
  have grp': "grp' = map (merge_row e cols names grp) grp"
    using concat_group_result[OF w a] .
  have "res = (results @ replicate (length names) grp')
              @ concat (map (\<lambda>g. replicate (length names)
                                   (map (merge_row e cols names (snd g)) (snd g))) grouped)"
    using Cons.IH[OF _ b] Cons.prems(1) by simp
  then show ?case by (simp add: g grp')
qed

lemma concat_groups_names:
  "concat_groups e cols names grouped results = Inr res \<Longrightarrow> grouped \<noteq> [] \<Longrightarrow>
     \<forall>nm\<in>set names. \<exists>j. get_col AttributeError cols (Str nm) = Inr j"
proof (cases grouped)
  case Nil
  assume "grouped \<noteq> []"
  with Nil show ?thesis by simp
next
  case (Cons g gs)
  assume ok: "concat_groups e cols names grouped results = Inr res"
  obtain name grp where g: "g = (name, grp)" by (cases g)
  from ok Cons g obtain grp' where "concat_group e cols names grp = Inr grp'"
    by (auto split: sum.splits)
  then show ?thesis by (rule concat_group_names)
qed

text \<open>
  The rows \<^verbatim>\<open>concat_column_data\<close> returns: the merged row of every input row whose
  key is not missing.
\<close>

lemma concat_column_data_rows:
  assumes ok: "concat_column_data e names df = Inr out"
    and wf: "\<forall>r\<in>set (rows df). length r = length (columns df)"
    and key: "get_col ValueError (columns df) (Str ''PDB ID'') = Inr ki"
  shows "columns out = columns df"
    and "names \<noteq> []"
    and "set (rows out) = (\<lambda>r. merge_row e (columns df) names (group_of df ki (r ! ki)) r)
                            ` {r \<in> set (rows df). \<not> isnull (r ! ki)}"
    and "\<forall>nm\<in>set names. \<exists>j. get_col AttributeError (columns df) (Str nm) = Inr j"
proof -
  define keys where "keys = sort_keys (unique (filter (\<lambda>c. \<not> isnull c) (column ki (rows df))))"
  define grouped where "grouped = map (\<lambda>name. (name, group_of df ki name)) keys"
  have g: "groupby df (Str (field PDB_ID_KEY)) = Inr grouped"
    by (simp add: groupby_def field_values key grouped_def keys_def group_of_def)
  from ok g obtain results where
    r: "concat_groups e (columns df) names grouped [] = Inr results" and
    ne: "results \<noteq> []" and
    out: "out = \<lparr>columns = columns df, rows = concat results\<rparr>"
    by (auto simp: concat_column_data_def split: sum.splits if_splits)
  have w: "\<forall>g\<in>set grouped. \<forall>r\<in>set (snd g). length r = length (columns df)"
    using wf by (auto simp: grouped_def group_of_def)
  have res: "results = concat (map (\<lambda>g. replicate (length names)
                (map (merge_row e (columns df) names (snd g)) (snd g))) grouped)"
    using concat_groups_result[OF w r] by simp
  show "columns out = columns df" using out by simp
  show n: "names \<noteq> []" using ne res by auto
  have gne: "grouped \<noteq> []" using ne res by auto
  show "\<forall>nm\<in>set names. \<exists>j. get_col AttributeError (columns df) (Str nm) = Inr j"
    using concat_groups_names[OF r gne] .
  have sk: "set keys = {k \<in> set (column ki (rows df)). \<not> isnull k}"
    by (auto simp: keys_def set_sort_keys set_unique)
  have "set (rows out) = (\<Union>k\<in>set keys. merge_row e (columns df) names (group_of df ki k)
                                          ` set (group_of df ki k))"
    using n by (auto simp: out res grouped_def)
  also have "\<dots> = (\<lambda>r. merge_row e (columns df) names (group_of df ki (r ! ki)) r)
                            ` {r \<in> set (rows df). \<not> isnull (r ! ki)}"
    apply (auto simp: sk group_of_def column_def)
    subgoal for xb r by (rule image_eqI[where x = xb]) auto
    done
  finally show "set (rows out) = (\<lambda>r. merge_row e (columns df) names (group_of df ki (r ! ki)) r)
                            ` {r \<in> set (rows df). \<not> isnull (r ! ki)}" .
qed

text \<open>
  C1. In the table \<^verbatim>\<open>concat_column_data\<close> returns, every row holds, in every merged
  column, the merged text of its identifier group: the distinct values of that column
  within the group, as texts, in first-seen order, without the empty text, joined with a
  space, or with \<^verbatim>\<open>' | '\<close> in the column of the ligand names. The rows of the result
  carry exactly the identifiers of the input.
\<close>

theorem aggregator_merge_policy:
  assumes ok: "concat_column_data e col_names df = Inr out"
    and wf: "well_formed df"
    and key: "get_col ValueError (columns df) (Str ''PDB ID'') = Inr ki"
    and nokey: "''PDB ID'' \<notin> set col_names"
  shows "columns out = columns df
       \<and> (\<forall>r'\<in>set (rows out). \<forall>nm\<in>set col_names.
            \<exists>j. get_col AttributeError (columns df) (Str nm) = Inr j
               \<and> r' ! j = Str (merge_text e nm (column j (group_of df ki (r' ! ki)))))
       \<and> (\<forall>r\<in>set (rows df). \<not> isnull (r ! ki) \<longrightarrow> (\<exists>r'\<in>set (rows out). r' ! ki = r ! ki))
       \<and> (\<forall>r'\<in>set (rows out). \<exists>r\<in>set (rows df). \<not> isnull (r ! ki) \<and> r' ! ki = r ! ki)"
proof -
  have wf': "\<forall>r\<in>set (rows df). length r = length (columns df)"
    using wf by (simp add: well_formed_iff)
  note facts = concat_column_data_rows[OF ok wf' key]
  have kp: "ki < length (columns df)" "columns df ! ki = Str ''PDB ID''"
    using get_col_props[OF key] by simp_all
  have keep: "\<And>r g. r \<in> set (rows df) \<Longrightarrow> merge_row e (columns df) col_names g r ! ki = r ! ki"
    using wf' kp nokey by (simp add: merge_row_nth)
  have a: "\<forall>r'\<in>set (rows out). \<forall>nm\<in>set col_names.
            \<exists>j. get_col AttributeError (columns df) (Str nm) = Inr j
               \<and> r' ! j = Str (merge_text e nm (column j (group_of df ki (r' ! ki))))"
  proof (intro ballI)
    fix r' nm assume r': "r' \<in> set (rows out)" and nm: "nm \<in> set col_names"
    from r' facts(3) obtain r where r: "r \<in> set (rows df)" "\<not> isnull (r ! ki)"
      and eq: "r' = merge_row e (columns df) col_names (group_of df ki (r ! ki)) r" by auto
    from facts(4) nm obtain j where j: "get_col AttributeError (columns df) (Str nm) = Inr j"
      by auto
    have jp: "j < length (columns df)" "columns df ! j = Str nm"
      using get_col_props[OF j] by simp_all
    have "r' ! ki = r ! ki" using keep[OF r(1)] eq by simp
    moreover have "r' ! j = Str (merge_text e nm (column j (group_of df ki (r ! ki))))"
      using eq jp nm wf' r(1) by (simp add: merge_row_nth)
    ultimately show "\<exists>j. get_col AttributeError (columns df) (Str nm) = Inr j
               \<and> r' ! j = Str (merge_text e nm (column j (group_of df ki (r' ! ki))))"
      using j by auto
  qed
  have b: "\<forall>r\<in>set (rows df). \<not> isnull (r ! ki) \<longrightarrow> (\<exists>r'\<in>set (rows out). r' ! ki = r ! ki)"
    using facts(3) keep by auto
  have c: "\<forall>r'\<in>set (rows out). \<exists>r\<in>set (rows df). \<not> isnull (r ! ki) \<and> r' ! ki = r ! ki"
    using facts(3) keep by auto
  show ?thesis using facts(1) a b c by blast
qed

text \<open>
  The examples of the specification: the values A, empty, B, A of a column merge to
  \<open>A B\<close>, and the ligand names X, Y, X to \<open>X | Y\<close>.
\<close>

theorem aggregator_merge_example:
  "concat_column_data example_env [''Source'', ''Ligand Name(s)''] chains_df = Inr chains_merged
   \<and> well_formed chains_df
   \<and> get_col ValueError (columns chains_df) (Str ''PDB ID'') = Inr 0
   \<and> column 2 (group_of chains_df 0 (Str ''2XYZ'')) = [Str ''A'', Str [], Str ''B'', Str ''A'']
   \<and> (\<exists>r'\<in>set (rows chains_merged). r' ! 0 = Str ''2XYZ'' \<and> r' ! 2 = Str ''A B'')
   \<and> merge_text example_env ''Source'' [Str ''A'', Str [], Str ''B'', Str ''A''] = ''A B''
   \<and> merge_text example_env ''Ligand Name(s)'' [Str ''X'', Str ''Y'', Str ''X''] = ''X | Y''"
proof -
  have ok: "concat_column_data example_env [''Source'', ''Ligand Name(s)''] chains_df
              = Inr chains_merged" by code_simp
  have wf: "well_formed chains_df" by code_simp
  have key: "get_col ValueError (columns chains_df) (Str ''PDB ID'') = Inr 0" by code_simp
  have nokey: "''PDB ID'' \<notin> set [''Source'', ''Ligand Name(s)'']" by simp
  note t = aggregator_merge_policy[OF ok wf key nokey]
  have r0: "[Str ''2XYZ'', Str ''A'', Str ''A'', Str ''X''] \<in> set (rows chains_df)"
    by (simp add: chains_df_def)
  have nn: "\<not> isnull ([Str ''2XYZ'', Str ''A'', Str ''A'', Str ''X''] ! 0)"
    by (simp add: isnull_def)
  from t r0 nn obtain r' where r': "r' \<in> set (rows chains_merged)"
    and k: "r' ! 0 = [Str ''2XYZ'', Str ''A'', Str ''A'', Str ''X''] ! 0" by blast
  have s: "''Source'' \<in> set [''Source'', ''Ligand Name(s)'']" by simp
  from t r' s obtain j where
    j: "get_col AttributeError (columns chains_df) (Str ''Source'') = Inr j" and
    v: "r' ! j = Str (merge_text example_env ''Source'' (column j (group_of chains_df 0 (r' ! 0))))"
    by blast
  have "get_col AttributeError (columns chains_df) (Str ''Source'') = Inr 2" by code_simp
  with j have j2: "j = 2" by simp
  have g: "column 2 (group_of chains_df 0 (Str ''2XYZ'')) = [Str ''A'', Str [], Str ''B'', Str ''A'']"
    by code_simp
  have m1: "merge_text example_env ''Source'' [Str ''A'', Str [], Str ''B'', Str ''A''] = ''A B''"
    by code_simp
  have m2: "merge_text example_env ''Ligand Name(s)'' [Str ''X'', Str ''Y'', Str ''X''] = ''X | Y''"
    by code_simp
  have "r' ! 0 = Str ''2XYZ'' \<and> r' ! 2 = Str ''A B''"
    using k v j2 g m1 by simp
  with r' have "\<exists>r'\<in>set (rows chains_merged). r' ! 0 = Str ''2XYZ'' \<and> r' ! 2 = Str ''A B''"
    by blast
  then show ?thesis using ok wf key g m1 m2 by blast
qed

lemma drop_cells_Cons:
  "drop_cells (c # cs) d (x # xs) = (if c \<noteq> d then x # drop_cells cs d xs else drop_cells cs d xs)"
  by (simp add: drop_cells_def)

text \<open>Where a cell of a kept column is found after a column has been dropped.\<close>

lemma drop_cells_nth:
  "length r = length cols \<Longrightarrow> i < length cols \<Longrightarrow> cols ! i \<noteq> d \<Longrightarrow>
     length (filter (\<lambda>c. c \<noteq> d) (take i cols)) < length (drop_cells cols d r)
     \<and> drop_cells cols d r ! length (filter (\<lambda>c. c \<noteq> d) (take i cols)) = r ! i"
proof (induction cols arbitrary: r i)
  case Nil
  then show ?case by simp
next
  case (Cons c cs)
  then obtain x xs where r: "r = x # xs" by (cases r) auto
  show ?case
  proof (cases i)
    case 0
    then show ?thesis using Cons.prems by (simp add: r drop_cells_Cons)
  next
    case (Suc i')
    then have "length (filter (\<lambda>c. c \<noteq> d) (take i' cs)) < length (drop_cells cs d xs)
     \<and> drop_cells cs d xs ! length (filter (\<lambda>c. c \<noteq> d) (take i' cs)) = xs ! i'"
      using Cons.prems r by (intro Cons.IH) auto
    then show ?thesis by (simp add: Suc r drop_cells_Cons)
  qed
qed

lemma drop_cells_self: "drop_cells cols d cols = filter (\<lambda>c. c \<noteq> d) cols"
  by (induction cols) (auto simp: drop_cells_Cons drop_cells_def)

text \<open>Rows that agree on the kept columns are equal after the drop.\<close>

lemma drop_cells_cong:
  "length x = length cols \<Longrightarrow> length y = length cols \<Longrightarrow>
     (\<forall>j<length cols. cols ! j \<noteq> d \<longrightarrow> x ! j = y ! j) \<Longrightarrow>
     drop_cells cols d x = drop_cells cols d y"
proof (induction cols arbitrary: x y)
  case Nil
  then show ?case by (simp add: drop_cells_def)
next
  case (Cons c cs)
  from Cons.prems(1) obtain a xs where x: "x = a # xs" by (cases x) auto
  from Cons.prems(2) obtain b ys where y: "y = b # ys" by (cases y) auto
  have lx: "length xs = length cs" using Cons.prems(1) x by simp
  have ly: "length ys = length cs" using Cons.prems(2) y by simp
  have rest: "\<forall>j<length cs. cs ! j \<noteq> d \<longrightarrow> xs ! j = ys ! j"
  proof (intro allI impI)
    fix j assume "j < length cs" "cs ! j \<noteq> d"
    then have "Suc j < length (c # cs)" "(c # cs) ! Suc j \<noteq> d" by simp_all
    with Cons.prems(3) have "x ! Suc j = y ! Suc j" by blast
    then show "xs ! j = ys ! j" by (simp add: x y)
  qed
  have tl: "drop_cells cs d xs = drop_cells cs d ys"
    using lx ly rest by (rule Cons.IH)
  have hd: "c \<noteq> d \<Longrightarrow> a = b"
    using Cons.prems(3)[rule_format, of 0] by (simp add: x y)
  show ?case using tl hd by (simp add: x y drop_cells_Cons)
qed

lemma get_col_after_drop:
  assumes g: "get_col dup cols c = Inr i" and ne: "c \<noteq> d"
  shows "get_col dup (filter (\<lambda>x. x \<noteq> d) cols) c
         = Inr (length (filter (\<lambda>x. x \<noteq> d) (take i cols)))"
proof -
  let ?f = "filter (\<lambda>x. x \<noteq> d) cols"
  let ?k = "length (filter (\<lambda>x. x \<noteq> d) (take i cols))"
  have ip: "i < length cols" "cols ! i = c" using get_col_props[OF g] by simp_all
  have "length (filter (\<lambda>x. x = c) cols) = 1" using g get_col_count by blast
  moreover have "filter (\<lambda>x. x = c) ?f = filter (\<lambda>x. x = c) cols"
    using ne by (induction cols) auto
  ultimately have "\<exists>j. get_col dup ?f c = Inr j" by (simp add: get_col_count)
  then obtain j where j: "get_col dup ?f c = Inr j" ..
  have "?k < length (drop_cells cols d cols) \<and> drop_cells cols d cols ! ?k = cols ! i"
    using ip ne by (intro drop_cells_nth) auto
  then have "?k < length ?f" "?f ! ?k = c" using ip by (simp_all add: drop_cells_self)
  then have "?k = j" using col_positions_unique[OF get_col_Inr[OF j]] by blast
  then show ?thesis using j by simp
qed

lemma constant_in_groups_iff:
  "constant_in_groups df ki col_names =
     (\<forall>j<length (columns df).
        columns df ! j \<notin> Str ` set col_names \<and> columns df ! j \<noteq> Str ''chainId'' \<longrightarrow>
        (\<forall>r1\<in>set (rows df). \<forall>r2\<in>set (rows df). r1 ! ki = r2 ! ki \<longrightarrow> r1 ! j = r2 ! j))"
proof -
  have "constant_in_groups df ki col_names =
     (\<forall>j\<in>{0..<length (columns df)}.
        columns df ! j \<in> Str ` set col_names \<or> columns df ! j = Str ''chainId'' \<or>
        (\<forall>r1\<in>set (rows df). \<forall>r2\<in>set (rows df). r1 ! ki \<noteq> r2 ! ki \<or> r1 ! j = r2 ! j))"
    by (simp only: constant_in_groups_def list_all_iff set_upt)
  also have "\<dots> = (\<forall>j<length (columns df).
        columns df ! j \<notin> Str ` set col_names \<and> columns df ! j \<noteq> Str ''chainId'' \<longrightarrow>
        (\<forall>r1\<in>set (rows df). \<forall>r2\<in>set (rows df). r1 ! ki = r2 ! ki \<longrightarrow> r1 ! j = r2 ! j))"
    unfolding atLeastLessThan_iff Ball_def by blast
  finally show ?thesis .
qed

text \<open>
  C2. When the columns that are neither merged nor dropped are constant within every
  identifier group, the condensed table holds exactly one row for every identifier of the
  input (every key of the identifier column that is not missing) and no row for any
  other key.
\<close>

theorem condensed_one_row_per_identifier:
  assumes ok: "get_condensed_df e col_names df = Inr out"
    and wf: "well_formed df"
    and key: "get_col ValueError (columns df) (Str ''PDB ID'') = Inr ki"
    and nokey: "''PDB ID'' \<notin> set col_names"
    and const: "constant_in_groups df ki col_names"
  shows "\<exists>ko. get_col ValueError (columns out) (Str ''PDB ID'') = Inr ko
           \<and> (\<forall>k. length (filter (\<lambda>r'. r' ! ko = k) (rows out))
                  = (if k \<in> set (column ki (rows df)) \<and> \<not> isnull k then 1 else 0))"
proof -
  let ?cols = "columns df"
  let ?d = "Str ''chainId''"
  let ?ko = "length (filter (\<lambda>x. x \<noteq> ?d) (take ki ?cols))"
  let ?m = "\<lambda>r. merge_row e ?cols col_names (group_of df ki (r ! ki)) r"
  have wf': "\<forall>r\<in>set (rows df). length r = length (columns df)"
    using wf by (simp add: well_formed_iff)
  have const': "\<forall>j<length (columns df).
        columns df ! j \<notin> Str ` set col_names \<and> columns df ! j \<noteq> Str ''chainId'' \<longrightarrow>
        (\<forall>r1\<in>set (rows df). \<forall>r2\<in>set (rows df). r1 ! ki = r2 ! ki \<longrightarrow> r1 ! j = r2 ! j)"
    using const by (simp only: constant_in_groups_iff)
  from ok obtain cdf where cd: "concat_column_data e col_names df = Inr cdf"
    and out: "out = drop_duplicates \<lparr>columns = filter (\<lambda>c. c \<noteq> ?d) (columns cdf),
                rows = map (drop_cells (columns cdf) ?d) (rows cdf)\<rparr>"
    by (auto simp: get_condensed_df_def drop_column_def split: sum.splits if_splits)
  note facts = concat_column_data_rows[OF cd wf' key]
  have cols_out: "columns out = filter (\<lambda>c. c \<noteq> ?d) ?cols"
    using out facts(1) by (simp add: drop_duplicates_def)
  let ?L = "map (drop_cells ?cols ?d) (rows cdf)"
  have rows_out: "rows out = unique ?L"
    using out facts(1) by (simp add: drop_duplicates_def)
  have kp: "ki < length ?cols" "?cols ! ki = Str ''PDB ID''"
    using get_col_props[OF key] by simp_all
  have ko: "get_col ValueError (columns out) (Str ''PDB ID'') = Inr ?ko"
    unfolding cols_out by (rule get_col_after_drop[OF key]) simp
  have keep: "\<And>r. r \<in> set (rows df) \<Longrightarrow> drop_cells ?cols ?d (?m r) ! ?ko = r ! ki"
  proof -
    fix r assume r: "r \<in> set (rows df)"
    then have len: "length (?m r) = length ?cols" using wf' by simp
    have "drop_cells ?cols ?d (?m r) ! ?ko = ?m r ! ki"
      using drop_cells_nth[OF len kp(1)] kp(2) by simp
    also have "\<dots> = r ! ki" using r wf' kp nokey by (simp add: merge_row_nth)
    finally show "drop_cells ?cols ?d (?m r) ! ?ko = r ! ki" .
  qed
  have same: "\<And>r1 r2. r1 \<in> set (rows df) \<Longrightarrow> r2 \<in> set (rows df) \<Longrightarrow> r1 ! ki = r2 ! ki \<Longrightarrow>
      drop_cells ?cols ?d (?m r1) = drop_cells ?cols ?d (?m r2)"
  proof -
    fix r1 r2
    assume r1: "r1 \<in> set (rows df)" and r2: "r2 \<in> set (rows df)" and k: "r1 ! ki = r2 ! ki"
    have l1: "length (?m r1) = length ?cols" using r1 wf' by simp
    have l2: "length (?m r2) = length ?cols" using r2 wf' by simp
    have "\<forall>j<length ?cols. ?cols ! j \<noteq> ?d \<longrightarrow> ?m r1 ! j = ?m r2 ! j"
    proof (intro allI impI)
      fix j assume j: "j < length ?cols" and nd: "?cols ! j \<noteq> ?d"
      have j1: "j < length r1" and j2: "j < length r2" using j r1 r2 wf' by simp_all
      show "?m r1 ! j = ?m r2 ! j"
      proof (cases "?cols ! j \<in> Str ` set col_names")
        case True
        then show ?thesis using j1 j2 k by (auto simp: merge_row_nth)
      next
        case False
        then have "r1 ! j = r2 ! j" using const' j nd r1 r2 k by blast
        then show ?thesis using False j1 j2 k by (auto simp: merge_row_nth split: cell.split)
      qed
    qed
    then show "drop_cells ?cols ?d (?m r1) = drop_cells ?cols ?d (?m r2)"
      using l1 l2 by (intro drop_cells_cong) auto
  qed
  have setL: "set ?L = (\<lambda>r. drop_cells ?cols ?d (?m r)) ` {r \<in> set (rows df). \<not> isnull (r ! ki)}"
    using facts(3) by (simp add: image_image)
  have count: "\<And>k. length (filter (\<lambda>r'. r' ! ?ko = k) (rows out))
                  = (if k \<in> set (column ki (rows df)) \<and> \<not> isnull k then 1 else 0)"
  proof -
    fix k
    let ?F = "filter (\<lambda>r'. r' ! ?ko = k) ?L"
    have fu: "filter (\<lambda>r'. r' ! ?ko = k) (rows out) = unique ?F"
      by (simp add: rows_out filter_unique)
    show "length (filter (\<lambda>r'. r' ! ?ko = k) (rows out))
                  = (if k \<in> set (column ki (rows df)) \<and> \<not> isnull k then 1 else 0)"
    proof (cases "k \<in> set (column ki (rows df)) \<and> \<not> isnull k")
      case True
      then obtain r where r: "r \<in> set (rows df)" "r ! ki = k" "\<not> isnull (r ! ki)"
        by (auto simp: column_def)
      let ?y = "drop_cells ?cols ?d (?m r)"
      have "?y \<in> set ?L" using setL r by blast
      then have yF: "?y \<in> set ?F" using keep[OF r(1)] r(2) by simp
      have ne: "?F \<noteq> []"
      proof
        assume "?F = []"
        with yF show False by (simp only: list.set empty_iff)
      qed
      have all: "\<forall>x\<in>set ?F. x = ?y"
      proof
        fix x assume "x \<in> set ?F"
        then have xl: "x \<in> set ?L" and xk: "x ! ?ko = k" by simp_all
        from xl setL obtain r2 where r2: "r2 \<in> set (rows df)"
          and x: "x = drop_cells ?cols ?d (?m r2)" by blast
        have "r2 ! ki = k" using keep[OF r2] xk x by simp
        then show "x = ?y" using same[OF r2 r(1)] r(2) x by simp
      qed
      have "unique ?F = [?y]" using ne all by (rule unique_all_equal)
      then show ?thesis using True fu by simp
    next
      case False
      have "?F = []"
      proof (rule ccontr)
        assume "?F \<noteq> []"
        then obtain x where "x \<in> set ?F" by (cases ?F) auto
        then have xl: "x \<in> set ?L" and xk: "x ! ?ko = k" by simp_all
        from xl setL obtain r2 where r2: "r2 \<in> set (rows df)" "\<not> isnull (r2 ! ki)"
          and x: "x = drop_cells ?cols ?d (?m r2)" by blast
        have "r2 ! ki = k" using keep[OF r2(1)] xk x by simp
        then have "k \<in> set (column ki (rows df)) \<and> \<not> isnull k"
          using r2 by (auto simp: column_def)
        with False show False by simp
      qed
      then show ?thesis using False fu by (simp add: unique_def)
    qed
  qed
  show ?thesis using ko count by blast
qed

text \<open>
  The condensed table of the example: one row for each of the two identifiers, none for
  an identifier that is not in the table.
\<close>

theorem condensed_example:
  "get_condensed_df example_env [''Source'', ''Ligand Name(s)''] chains_df = Inr chains_condensed
   \<and> well_formed chains_df
   \<and> get_col ValueError (columns chains_df) (Str ''PDB ID'') = Inr 0
   \<and> constant_in_groups chains_df 0 [''Source'', ''Ligand Name(s)'']
   \<and> length (filter (\<lambda>r'. r' ! 0 = Str ''2XYZ'') (rows chains_condensed)) = 1
   \<and> length (filter (\<lambda>r'. r' ! 0 = Str ''1ABC'') (rows chains_condensed)) = 1
   \<and> length (filter (\<lambda>r'. r' ! 0 = Str ''9ZZZ'') (rows chains_condensed)) = 0"
proof -
  have ok: "get_condensed_df example_env [''Source'', ''Ligand Name(s)''] chains_df
              = Inr chains_condensed" by code_simp
  have wf: "well_formed chains_df" by code_simp
  have key: "get_col ValueError (columns chains_df) (Str ''PDB ID'') = Inr 0" by code_simp
  have nokey: "''PDB ID'' \<notin> set [''Source'', ''Ligand Name(s)'']" by simp
  have const: "constant_in_groups chains_df 0 [''Source'', ''Ligand Name(s)'']" by code_simp
  from condensed_one_row_per_identifier[OF ok wf key nokey const] obtain ko where
    ko: "get_col ValueError (columns chains_condensed) (Str ''PDB ID'') = Inr ko" and
    cnt: "\<And>k. length (filter (\<lambda>r'. r' ! ko = k) (rows chains_condensed))
                  = (if k \<in> set (column 0 (rows chains_df)) \<and> \<not> isnull k then 1 else 0)"
    by blast
  have "get_col ValueError (columns chains_condensed) (Str ''PDB ID'') = Inr 0" by code_simp
  with ko have k0: "ko = 0" by simp
  have a: "Str ''2XYZ'' \<in> set (column 0 (rows chains_df)) \<and> \<not> isnull (Str ''2XYZ'')"
    by code_simp
  have b: "Str ''1ABC'' \<in> set (column 0 (rows chains_df)) \<and> \<not> isnull (Str ''1ABC'')"
    by code_simp
  have c: "\<not> (Str ''9ZZZ'' \<in> set (column 0 (rows chains_df)) \<and> \<not> isnull (Str ''9ZZZ''))"
    by code_simp
  show ?thesis
    using ok wf key const cnt[of "Str ''2XYZ''"] cnt[of "Str ''1ABC''"] cnt[of "Str ''9ZZZ''"]
      k0 a b c by simp
qed

text \<open>
  C10, as the program has it. A missing cell of a merged column is turned into a text
  by \<^verbatim>\<open>astype(str)\<close> and is not excluded: \<^verbatim>\<open>None\<close>, the missing cell of a short row,
  becomes the token \<open>None\<close>, and a float NaN becomes the token \<open>nan\<close>. The merged text
  is the join of the distinct tokens of the group, and only the empty text is excluded.
\<close>

theorem missing_cells_become_tokens:
  assumes ok: "concat_group e cols col_names grp = Inr grp'"
    and wf: "list_all (\<lambda>r. length r = length cols) grp"
    and nm: "nm \<in> set col_names"
  shows "\<exists>j. get_col AttributeError cols (Str nm) = Inr j
           \<and> (\<forall>r'\<in>set grp'. r' ! j =
                 Str (py_join (if nm = ''Ligand Name(s)'' then '' | '' else '' '')
                        (merge_tokens e (column j grp))))
           \<and> distinct (merge_tokens e (column j grp))
           \<and> set (merge_tokens e (column j grp)) = astype_str e ` set (column j grp) - {[]}
           \<and> (PyNone \<in> set (column j grp) \<longrightarrow> ''None'' \<in> set (merge_tokens e (column j grp)))
           \<and> (Flt NaN \<in> set (column j grp) \<longrightarrow> ''nan'' \<in> set (merge_tokens e (column j grp)))"
proof -
  have wf': "\<forall>r\<in>set grp. length r = length cols" using wf by (simp add: list_all_iff)
  from concat_group_names[OF ok] nm obtain j where
    j: "get_col AttributeError cols (Str nm) = Inr j" by blast
  have jp: "j < length cols" "cols ! j = Str nm" using get_col_props[OF j] by simp_all
  have g: "grp' = map (merge_row e cols col_names grp) grp"
    using concat_group_result[OF wf' ok] .
  have a: "\<forall>r'\<in>set grp'. r' ! j =
                 Str (py_join (if nm = ''Ligand Name(s)'' then '' | '' else '' '')
                        (merge_tokens e (column j grp)))"
    using wf' jp nm by (auto simp: g merge_row_nth merge_text_def)
  have b: "distinct (merge_tokens e (column j grp))"
    by (simp add: merge_tokens_def distinct_unique)
  have c: "set (merge_tokens e (column j grp)) = astype_str e ` set (column j grp) - {[]}"
    by (auto simp: merge_tokens_def set_unique)
  have d: "PyNone \<in> set (column j grp) \<longrightarrow> ''None'' \<in> set (merge_tokens e (column j grp))"
    unfolding c by (auto intro: image_eqI[where x = PyNone])
  have f: "Flt NaN \<in> set (column j grp) \<longrightarrow> ''nan'' \<in> set (merge_tokens e (column j grp))"
    unfolding c by (auto intro: image_eqI[where x = "Flt NaN"])
  show ?thesis using j a b c d f by blast
qed

text \<open>The group of \<open>1ABC\<close> in the example has a missing source: its token is \<open>None\<close>.\<close>

theorem missing_cell_example:
  "concat_group example_env (columns chains_df) [''Source''] (group_of chains_df 0 (Str ''1ABC''))
     = Inr [[Str ''1ABC'', Str ''A'', Str ''None'', Str ''Z'']]
   \<and> list_all (\<lambda>r. length r = length (columns chains_df)) (group_of chains_df 0 (Str ''1ABC''))
   \<and> column 2 (group_of chains_df 0 (Str ''1ABC'')) = [PyNone]
   \<and> ''None'' \<in> set (merge_tokens example_env (column 2 (group_of chains_df 0 (Str ''1ABC''))))"
proof -
  have ok: "concat_group example_env (columns chains_df) [''Source'']
              (group_of chains_df 0 (Str ''1ABC''))
            = Inr [[Str ''1ABC'', Str ''A'', Str ''None'', Str ''Z'']]" by code_simp
  have wf: "list_all (\<lambda>r. length r = length (columns chains_df))
              (group_of chains_df 0 (Str ''1ABC''))" by code_simp
  have nm: "''Source'' \<in> set [''Source'']" by simp
  from missing_cells_become_tokens[OF ok wf nm] obtain j where
    j: "get_col AttributeError (columns chains_df) (Str ''Source'') = Inr j" and
    n: "PyNone \<in> set (column j (group_of chains_df 0 (Str ''1ABC''))) \<longrightarrow>
        ''None'' \<in> set (merge_tokens example_env (column j (group_of chains_df 0 (Str ''1ABC''))))"
    by blast
  have "get_col AttributeError (columns chains_df) (Str ''Source'') = Inr 2" by code_simp
  with j have j2: "j = 2" by simp
  have c: "column 2 (group_of chains_df 0 (Str ''1ABC'')) = [PyNone]" by code_simp
  show ?thesis using ok wf c n j2 by simp
qed

text \<open>
  Where the claim of the specification fails: the missing cell is merged as \<open>None\<close>, and
  no token \<open>nan\<close> appears.
\<close>

theorem none_cell_is_merged_as_None:
  "concat_column_data example_env [''Source'', ''Ligand Name(s)''] chains_df = Inr chains_merged
   \<and> [Str ''1ABC'', Str ''A'', PyNone, Str ''Z''] \<in> set (rows chains_df)
   \<and> [Str ''1ABC'', Str ''A'', Str ''None'', Str ''Z''] \<in> set (rows chains_merged)
   \<and> astype_str example_env PyNone = ''None''
   \<and> merge_tokens example_env [PyNone] = [''None'']
   \<and> ''nan'' \<notin> set (merge_tokens example_env [PyNone])"
  by code_simp

subsection \<open>The order of the exported columns\<close>









subsection \<open>The write step\<close>

lemma splitext_append: "fst (splitext p) @ snd (splitext p) = p"
  by (simp add: splitext_def Let_def)

text \<open>The temporary file is not the output file, whose name ends in \<^verbatim>\<open>.csv\<close>.\<close>

lemma tmp_name_differs:
  assumes "snd (splitext out) = ''.csv''"
  shows "tmp_name out \<noteq> out"
proof
  assume "tmp_name out = out"
  then have "fst (splitext out) @ ''_tmp.csv'' = fst (splitext out) @ ''.csv''"
    using splitext_append[of out] assms by (simp add: tmp_name_def)
  then show False by simp
qed

lemma condensed_name_differs: "''CONDENSED_'' @ out \<noteq> out"
proof
  assume "''CONDENSED_'' @ out = out"
  then have "length (''CONDENSED_'' @ out) = length out" by simp
  then show False by simp
qed

lemma write_condensed_keeps:
  "snd (write_condensed e args df files) (outfile args) = files (outfile args)"
  using condensed_name_differs[of "outfile args"]
  by (auto simp: write_condensed_def Let_def split: sum.splits)

lemma write_full_check:
  assumes "to_csv e df = None \<or> to_csv e df = Some []"
  shows "write_full e args df files
         = (Inl (SystemExit 1), files(tmp_name (outfile args) := to_csv e df))"
  using assms by (auto simp: write_full_def Let_def)

lemma write_full_outfile:
  assumes ext: "snd (splitext (outfile args)) = ''.csv''"
  shows "snd (write_full e args df files) (outfile args) = files (outfile args)
       \<or> (\<exists>w. to_csv e df = Some w \<and> w \<noteq> []
              \<and> snd (write_full e args df files) (outfile args) = Some w)"
proof -
  have ne: "tmp_name (outfile args) \<noteq> outfile args" using ext by (rule tmp_name_differs)
  show ?thesis
  proof (cases "to_csv e df")
    case None
    then show ?thesis using ne by (simp add: write_full_def Let_def)
  next
    case (Some w)
    show ?thesis
    proof (cases "w = []")
      case True
      then show ?thesis using Some ne by (simp add: write_full_def Let_def)
    next
      case False
      show ?thesis
      proof (cases "most_recent_date e df")
        case (Inl err)
        then show ?thesis using Some False ne by (simp add: write_full_def Let_def)
      next
        case (Inr u)
        then show ?thesis using Some False ne
          by (simp add: write_full_def Let_def write_condensed_keeps)
      qed
    qed
  qed
qed

text \<open>
  C7. The full table is written to the temporary file, and the file is checked before the
  rename: when it is missing or has length zero after the write step, the run ends with
  exit status 1 and the output file is what it was before the run. In every run, the
  output file either stays what it was or becomes a written artifact that is not empty.
\<close>

theorem write_failure_keeps_previous_output:
  "(parse_args argv = Inr args \<and> full_table e args = Inr df
      \<and> (to_csv e df = None \<or> to_csv e df = Some [])
     \<longrightarrow> fst (main e argv files) = Inl (SystemExit 1)
       \<and> exit_status (fst (main e argv files)) = 1
       \<and> snd (main e argv files) (outfile argv) = files (outfile argv))
   \<and> (snd (main e argv files) (outfile argv) = files (outfile argv)
       \<or> (\<exists>df w. full_table e argv = Inr df \<and> to_csv e df = Some w \<and> w \<noteq> []
              \<and> snd (main e argv files) (outfile argv) = Some w))"
proof
  show "parse_args argv = Inr args \<and> full_table e args = Inr df
      \<and> (to_csv e df = None \<or> to_csv e df = Some [])
     \<longrightarrow> fst (main e argv files) = Inl (SystemExit 1)
       \<and> exit_status (fst (main e argv files)) = 1
       \<and> snd (main e argv files) (outfile argv) = files (outfile argv)"
  proof
    assume a: "parse_args argv = Inr args \<and> full_table e args = Inr df
      \<and> (to_csv e df = None \<or> to_csv e df = Some [])"
    then have same: "args = argv" using parse_args_same by blast
    have ext: "snd (splitext (outfile argv)) = ''.csv''"
      using a same by (auto simp: parse_args_def split: if_splits)
    have m: "main e argv files
             = (Inl (SystemExit 1), files(tmp_name (outfile argv) := to_csv e df))"
      using a same write_full_check[of e df argv files] by (simp add: main_def)
    show "fst (main e argv files) = Inl (SystemExit 1)
       \<and> exit_status (fst (main e argv files)) = 1
       \<and> snd (main e argv files) (outfile argv) = files (outfile argv)"
      using tmp_name_differs[OF ext] by (simp add: m)
  qed
  show "snd (main e argv files) (outfile argv) = files (outfile argv)
       \<or> (\<exists>df w. full_table e argv = Inr df \<and> to_csv e df = Some w \<and> w \<noteq> []
              \<and> snd (main e argv files) (outfile argv) = Some w)"
  proof (cases "parse_args argv")
    case (Inl err)
    then show ?thesis by (simp add: main_def)
  next
    case (Inr args)
    then have same: "args = argv" by (rule parse_args_same)
    have ext: "snd (splitext (outfile argv)) = ''.csv''"
      using Inr by (auto simp: parse_args_def split: if_splits)
    show ?thesis
    proof (cases "full_table e argv")
      case (Inl err)
      then show ?thesis using Inr same by (simp add: main_def)
    next
      case ft: (Inr df)
      have "main e argv files = write_full e argv df files"
        using Inr same ft by (simp add: main_def)
      then show ?thesis using write_full_outfile[OF ext, of e df files] ft by auto
    qed
  qed
qed

text \<open>
  A run whose write step leaves no file, over the output of an earlier run: exit status
  1, and the earlier output is still there.
\<close>

theorem write_failure_example:
  "parse_args example_args = Inr example_args
   \<and> full_table failing_env example_args = Inr xray_table
   \<and> to_csv failing_env xray_table = None
   \<and> fst (main failing_env example_args old_files) = Inl (SystemExit 1)
   \<and> snd (main failing_env example_args old_files) ''out.csv'' = Some ''previous''"
proof -
  have p: "parse_args example_args = Inr example_args" by code_simp
  have f: "full_table failing_env example_args = Inr xray_table" by code_simp
  have w: "to_csv failing_env xray_table = None" by code_simp
  have o: "outfile example_args = ''out.csv''" by code_simp
  have old: "old_files ''out.csv'' = Some ''previous''" by code_simp
  note t = write_failure_keeps_previous_output[of example_args example_args failing_env
      xray_table old_files]
  from t p f w have "fst (main failing_env example_args old_files) = Inl (SystemExit 1)
     \<and> snd (main failing_env example_args old_files) (outfile example_args)
         = old_files (outfile example_args)" by blast
  then show ?thesis using p f w o old by simp
qed

subsection \<open>The Table Builder\<close>

lemma fold_max_zero: "(fold max xs (a::nat) = 0) = (a = 0 \<and> (\<forall>x\<in>set xs. x = 0))"
  by (induction xs arbitrary: a) (auto simp: max_def)

lemma width_zero: "(width rs = 0) = (\<forall>r\<in>set rs. r = [])"
  by (simp add: width_def fold_max_zero)

lemma empty_DataFrame: "empty (DataFrame rs) = (rs = [] \<or> (\<forall>r\<in>set rs. r = []))"
  using width_zero[of rs] by (auto simp: empty_def DataFrame_def)

lemma not_list_ex_nonempty: "(\<not> list_ex (\<lambda>r. r \<noteq> []) rs) = (rs = [] \<or> (\<forall>r\<in>set rs. r = []))"
  by (auto simp: list_ex_iff)

lemma takeWhile_pad:
  "takeWhile (\<lambda>c. c \<noteq> PyNone) (map Str r @ replicate k PyNone) = map Str r"
  by (induction r) (auto simp: takeWhile_replicate)

text \<open>A padded row determines the row: texts are not \<^verbatim>\<open>None\<close>.\<close>

lemma pad_inj: "inj (pad w)"
proof (rule inj_on_inverseI)
  fix r
  show "map (\<lambda>c. case c of Str s \<Rightarrow> s | _ \<Rightarrow> []) (takeWhile (\<lambda>c. c \<noteq> PyNone) (pad w r)) = r"
    by (simp add: pad_def takeWhile_pad comp_def)
qed

lemma unique_pad: "unique (map (pad w) rs) = map (pad w) (unique rs)"
proof -
  have "inj_on (pad w) (set [] \<union> set rs)" using pad_inj by (rule inj_on_subset) simp
  then have "unique_from (map (pad w) []) (map (pad w) rs) = map (pad w) (unique_from [] rs)"
    by (rule unique_map_inj)
  then show ?thesis by (simp add: unique_def)
qed

lemma upt_0_Suc: "[0..<Suc n] = 0 # map Suc [0..<n]"
  by (simp add: upt_conv_Cons map_Suc_upt del: upt_Suc)

text \<open>
  Keeping first occurrences, as pandas does with a table of the values seen, is removing
  every row that repeats an earlier row.
\<close>

lemma unique_from_spec:
  "unique_from seen xs
   = map (\<lambda>i. xs ! i) (filter (\<lambda>i. xs ! i \<notin> set seen \<union> set (take i xs)) [0..<length xs])"
proof (induction xs arbitrary: seen)
  case Nil
  then show ?case by simp
next
  case (Cons x xs)
  have shift: "\<And>P. map (\<lambda>i. (x # xs) ! i) (filter P (map Suc [0..<length xs]))
                 = map (\<lambda>i. xs ! i) (filter (\<lambda>i. P (Suc i)) [0..<length xs])"
    by (simp add: filter_map comp_def)
  show ?case
  proof (cases "x \<in> set seen")
    case True
    then have s: "\<And>i. set seen \<union> set (take (Suc i) (x # xs)) = set seen \<union> set (take i xs)"
      by auto
    have "unique_from seen (x # xs) = unique_from seen xs" using True by simp
    also have "\<dots> = map (\<lambda>i. xs ! i)
                        (filter (\<lambda>i. xs ! i \<notin> set seen \<union> set (take i xs)) [0..<length xs])"
      by (rule Cons.IH)
    finally show ?thesis
      using True by (simp only: length_Cons upt_0_Suc filter.simps shift s nth_Cons_Suc
          nth_Cons_0 take_0 list.set Un_empty_right if_False list.map simp_thms)
  next
    case False
    then have s: "\<And>i. set seen \<union> set (take (Suc i) (x # xs)) = set (x # seen) \<union> set (take i xs)"
      by auto
    have "unique_from seen (x # xs) = x # unique_from (x # seen) xs" using False by simp
    also have "\<dots> = x # map (\<lambda>i. xs ! i)
                        (filter (\<lambda>i. xs ! i \<notin> set (x # seen) \<union> set (take i xs)) [0..<length xs])"
      by (simp only: Cons.IH)
    finally show ?thesis
      using False by (simp only: length_Cons upt_0_Suc filter.simps shift s nth_Cons_Suc
          nth_Cons_0 take_0 list.set Un_empty_right if_True list.map simp_thms)
  qed
qed

lemma unique_spec_dedup: "unique xs = spec_dedup xs"
  by (simp add: unique_def spec_dedup_def unique_from_spec)

lemma py_slice_inner: "py_slice xs (Some 1) (Some (- 1)) = butlast (tl xs)"
proof (cases xs)
  case Nil
  then show ?thesis by (simp add: py_slice_def py_bound_def)
next
  case (Cons x ys)
  have "py_bound (length xs) 1 = 1" by (simp add: py_bound_def Cons)
  moreover have "py_bound (length xs) (- 1) = length xs - 1" by (simp add: py_bound_def Cons)
  ultimately have "py_slice xs (Some 1) (Some (- 1)) = drop 1 (take (length xs - 1) xs)"
    by (simp add: py_slice_def Let_def)
  also have "\<dots> = tl (butlast xs)" by (simp add: butlast_conv_take drop_Suc tl_drop)
  finally show ?thesis by (simp add: butlast_tl)
qed

lemma rename_pad: "map (rename_label FIELDS_DICT) (pad w h) = pad w (map spec_rename h)"
proof -
  have "\<And>k. rename_label FIELDS_DICT (Str k) = Str (spec_rename k)"
    by (simp add: rename_label_def spec_rename_def split: option.split)
  moreover have "rename_label FIELDS_DICT PyNone = PyNone" by (simp add: rename_label_def)
  ultimately show ?thesis by (simp add: pad_def comp_def)
qed

text \<open>
  The table built from the parsed rows: the emptiness check looks at the raw frame, and a
  table that passes it is the reference table, held in a frame.
\<close>

lemma build_table_eq:
  "build_table rs =
     (if rs = [] \<or> (\<forall>r\<in>set rs. r = []) then Inl EmptyDataFrame
      else Inr (as_frame (width rs) (reference_table rs)))"
proof (cases "rs = [] \<or> (\<forall>r\<in>set rs. r = [])")
  case True
  then have "empty (DataFrame rs)" using empty_DataFrame[of rs] by blast
  then show ?thesis using True by (simp add: build_table_def)
next
  case False
  then have ne: "\<not> empty (DataFrame rs)" using empty_DataFrame[of rs] by blast
  from False obtain r0 rest where rs: "rs = r0 # rest" by (cases rs) auto
  then obtain us where u: "unique rs = r0 # us" by (simp add: unique_def)
  have rows1: "rows (drop_duplicates (DataFrame rs)) = pad (width rs) r0 # map (pad (width rs)) us"
    by (simp add: drop_duplicates_def DataFrame_def unique_pad u)
  have sl: "py_slice (pad (width rs) r0 # map (pad (width rs)) us) (Some 1) (Some (- 1))
            = map (pad (width rs)) (butlast us)"
    by (simp add: py_slice_inner map_butlast)
  have "build_table rs
        = Inr \<lparr>columns = map (rename_label FIELDS_DICT) (pad (width rs) r0),
               rows = map (pad (width rs)) (butlast us)\<rparr>"
    using ne rows1 sl
    by (simp add: build_table_def Let_def rename_def drop_duplicates_def DataFrame_def)
  moreover have "reference_table rs = (map spec_rename r0, butlast us)"
    by (simp add: reference_table_def unique_spec_dedup[symmetric] u)
  ultimately show ?thesis using False by (simp add: as_frame_def rename_pad)
qed

lemma fold_max_ge: "(a::nat) \<le> fold max xs a \<and> (\<forall>x\<in>set xs. x \<le> fold max xs a)"
proof (induction xs arbitrary: a)
  case Nil
  then show ?case by simp
next
  case (Cons x xs)
  have "max x a \<le> fold max xs (max x a) \<and> (\<forall>y\<in>set xs. y \<le> fold max xs (max x a))"
    by (rule Cons.IH)
  then show ?case by auto
qed

lemma length_le_width: "r \<in> set rs \<Longrightarrow> length r \<le> width rs"
  using fold_max_ge[of 0 "map length rs"] by (simp add: width_def)

text \<open>The Table Builder returns well-formed frames.\<close>

lemma build_table_well_formed:
  assumes "build_table rs = Inr df"
  shows "well_formed df"
proof -
  from assms have ne: "\<not> (rs = [] \<or> (\<forall>r\<in>set rs. r = []))"
    and df: "df = as_frame (width rs) (reference_table rs)"
    by (auto simp: build_table_eq split: if_splits)
  from ne obtain r0 rest where rs: "rs = r0 # rest" by (cases rs) auto
  then obtain us where u: "unique rs = r0 # us" by (simp add: unique_def)
  have sub: "set (r0 # us) \<subseteq> set rs" using set_unique[of rs] u by simp
  have ref: "reference_table rs = (map spec_rename r0, butlast us)"
    by (simp add: reference_table_def unique_spec_dedup[symmetric] u)
  have len: "\<And>r. r \<in> set (r0 # us) \<Longrightarrow> length (pad (width rs) r) = width rs"
    using sub length_le_width[of _ rs] by (auto simp: pad_def)
  have "\<forall>r\<in>set (butlast us). length (pad (width rs) r) = width rs"
    using len by (auto dest: in_set_butlastD)
  moreover have "length (pad (width rs) (map spec_rename r0)) = width rs"
    using len[of r0] by (simp add: pad_def)
  ultimately show ?thesis by (simp add: df ref as_frame_def well_formed_iff)
qed

lemma fetch_all_eq:
  "fetch_all e ids f acc =
     (if list_all (\<lambda>p. fetch e p f \<noteq> None) ids then Inr (acc @ concat_reports e ids f)
      else Inl (SystemExit 1))"
  by (induction ids arbitrary: acc) (auto simp: concat_reports_def split: option.splits)

lemma get_dataframe_eq:
  "get_dataframe_from_pdbs e ids f =
     (if \<not> list_all (\<lambda>p. fetch e p f \<noteq> None) ids then Inl (SystemExit 1)
      else if \<not> list_ex (\<lambda>r. r \<noteq> []) (csv_reader e (splitlines e (concat_reports e ids f)))
      then Inl EmptyDataFrame
      else Inr (as_frame (width (csv_reader e (splitlines e (concat_reports e ids f))))
                  (reference_table (csv_reader e (splitlines e (concat_reports e ids f))))))"
  by (simp add: get_dataframe_from_pdbs_def fetch_all_eq build_table_eq not_list_ex_nonempty)

text \<open>
  C5. When every request is answered and the parsed text has a row with a field, the
  Table Builder returns the reference table of the parsed text: duplicates of earlier
  rows removed, row 0 as the header, row 0 and the last row discarded, the header renamed
  by the field map; the frame holds it with short rows filled up with \<^verbatim>\<open>None\<close>.
\<close>

theorem table_builder_refines_reference:
  assumes fetched: "list_all (\<lambda>p. fetch e p field_names \<noteq> None) pdb_id_list"
    and some: "list_ex (\<lambda>r. r \<noteq> [])
                 (csv_reader e (splitlines e (concat_reports e pdb_id_list field_names)))"
  shows "get_dataframe_from_pdbs e pdb_id_list field_names =
           Inr (as_frame
                  (width (csv_reader e (splitlines e (concat_reports e pdb_id_list field_names))))
                  (reference_table
                     (csv_reader e (splitlines e (concat_reports e pdb_id_list field_names)))))"
  using fetched some by (simp add: get_dataframe_eq)

text \<open>
  The X-ray example: two reports with the same header and a blank last line give the
  three data rows under the renamed header.
\<close>

theorem table_builder_example:
  "list_all (\<lambda>p. fetch example_env p FIELDS_LIST \<noteq> None) [''1ABC'', ''2XYZ'']
   \<and> list_ex (\<lambda>r. r \<noteq> [])
       (csv_reader example_env
          (splitlines example_env (concat_reports example_env [''1ABC'', ''2XYZ''] FIELDS_LIST)))
   \<and> reference_table
       (csv_reader example_env
          (splitlines example_env (concat_reports example_env [''1ABC'', ''2XYZ''] FIELDS_LIST)))
     = ([''PDB ID'', ''chainId'', ''Resolution'', ''Rel. Date''],
        [[''1ABC'', ''A'', ''2.4'', ''2001-01-01''], [''1ABC'', ''B'', ''2.4'', ''2001-01-01''],
         [''2XYZ'', ''A'', ''2.6'', ''2002-02-02'']])
   \<and> get_dataframe_from_pdbs example_env [''1ABC'', ''2XYZ''] FIELDS_LIST = Inr xray_table"
proof -
  have f: "list_all (\<lambda>p. fetch example_env p FIELDS_LIST \<noteq> None) [''1ABC'', ''2XYZ'']"
    by code_simp
  have s: "list_ex (\<lambda>r. r \<noteq> [])
       (csv_reader example_env
          (splitlines example_env (concat_reports example_env [''1ABC'', ''2XYZ''] FIELDS_LIST)))"
    by code_simp
  have r: "reference_table
       (csv_reader example_env
          (splitlines example_env (concat_reports example_env [''1ABC'', ''2XYZ''] FIELDS_LIST)))
     = ([''PDB ID'', ''chainId'', ''Resolution'', ''Rel. Date''],
        [[''1ABC'', ''A'', ''2.4'', ''2001-01-01''], [''1ABC'', ''B'', ''2.4'', ''2001-01-01''],
         [''2XYZ'', ''A'', ''2.6'', ''2002-02-02'']])"
    by code_simp
  have a: "as_frame
             (width (csv_reader example_env
                (splitlines example_env
                   (concat_reports example_env [''1ABC'', ''2XYZ''] FIELDS_LIST))))
             (reference_table (csv_reader example_env
                (splitlines example_env
                   (concat_reports example_env [''1ABC'', ''2XYZ''] FIELDS_LIST))))
           = xray_table"
    by code_simp
  have "get_dataframe_from_pdbs example_env [''1ABC'', ''2XYZ''] FIELDS_LIST = Inr xray_table"
    using table_builder_refines_reference[OF f s] by (simp only: a)
  then show ?thesis using f s r by blast
qed

text \<open>
  C4, as the program has it. The Table Builder raises its exception for an empty frame
  exactly when every request is answered and the parsed text has no row with a field:
  the check is made on the raw frame, before the duplicates, the header and the last row
  are removed. The run then ends with exit status 1 and the files are what they were. A
  technique that matches no identifier ends so, the empty text having no rows.
\<close>

theorem empty_result_iff_raw_empty:
  "((get_dataframe_from_pdbs e ids f = Inl EmptyDataFrame)
      = (list_all (\<lambda>p. fetch e p f \<noteq> None) ids
         \<and> \<not> list_ex (\<lambda>r. r \<noteq> []) (csv_reader e (splitlines e (concat_reports e ids f)))))
   \<and> (csv_reader e (splitlines e []) = [] \<longrightarrow>
        get_dataframe_from_pdbs e [] f = Inl EmptyDataFrame)
   \<and> (parse_args argv = Inr args \<and> get_pdbs_from_method e (method_name args) = Inr ids
        \<and> get_dataframe_from_pdbs e ids FIELDS_LIST = Inl EmptyDataFrame
      \<longrightarrow> main e argv files = (Inl EmptyDataFrame, files)
        \<and> exit_status (fst (main e argv files)) = 1)"
proof -
  have a: "(get_dataframe_from_pdbs e ids f = Inl EmptyDataFrame)
      = (list_all (\<lambda>p. fetch e p f \<noteq> None) ids
         \<and> \<not> list_ex (\<lambda>r. r \<noteq> []) (csv_reader e (splitlines e (concat_reports e ids f))))"
    by (simp add: get_dataframe_eq)
  have b: "csv_reader e (splitlines e []) = [] \<longrightarrow>
        get_dataframe_from_pdbs e [] f = Inl EmptyDataFrame"
    by (simp add: get_dataframe_eq concat_reports_def)
  have c: "parse_args argv = Inr args \<and> get_pdbs_from_method e (method_name args) = Inr ids
        \<and> get_dataframe_from_pdbs e ids FIELDS_LIST = Inl EmptyDataFrame
      \<longrightarrow> main e argv files = (Inl EmptyDataFrame, files)
        \<and> exit_status (fst (main e argv files)) = 1"
    by (simp add: main_def full_table_def)
  show ?thesis using a b c by blast
qed

text \<open>The technique \<open>OTHER\<close> matches no identifier in the example: the run aborts.\<close>

theorem empty_result_example:
  "parse_args (example_args\<lparr>method_name := ''OTHER''\<rparr>) = Inr (example_args\<lparr>method_name := ''OTHER''\<rparr>)
   \<and> get_pdbs_from_method example_env ''OTHER'' = Inr []
   \<and> csv_reader example_env (splitlines example_env []) = []
   \<and> get_dataframe_from_pdbs example_env [] FIELDS_LIST = Inl EmptyDataFrame
   \<and> main example_env (example_args\<lparr>method_name := ''OTHER''\<rparr>) old_files
       = (Inl EmptyDataFrame, old_files)"
proof -
  let ?args = "example_args\<lparr>method_name := ''OTHER''\<rparr>"
  have p: "parse_args ?args = Inr ?args" by code_simp
  have m: "method_name ?args = ''OTHER''" by simp
  have i: "get_pdbs_from_method example_env ''OTHER'' = Inr []" by code_simp
  have z: "csv_reader example_env (splitlines example_env []) = []" by code_simp
  note t = empty_result_iff_raw_empty[of example_env "[]" FIELDS_LIST ?args ?args old_files]
  from t z have g: "get_dataframe_from_pdbs example_env [] FIELDS_LIST = Inl EmptyDataFrame"
    by blast
  from t p i g m have "main example_env ?args old_files = (Inl EmptyDataFrame, old_files)"
    by simp
  then show ?thesis using p i z g by blast
qed

text \<open>
  Where the claim of the specification fails: one identifier with one record gives a
  table with zero rows, the Table Builder does not raise, and the run writes an output
  file that holds the header only.
\<close>

theorem zero_rows_without_empty_result:
  "get_dataframe_from_pdbs example_env [''3NMR''] FIELDS_LIST
     = Inr \<lparr>columns = [Str ''PDB ID'', Str ''Rel. Date''], rows = []\<rparr>
   \<and> fst (main example_env (example_args\<lparr>method_name := ''SOLUTION NMR''\<rparr>) Map.empty) = Inr ()
   \<and> snd (main example_env (example_args\<lparr>method_name := ''SOLUTION NMR''\<rparr>) Map.empty) ''out.csv''
       = Some (''PDB ID,Rel. Date'' @ [CHR 0x0A])"
  by code_simp

end
